theory Spec2Isabelle
  imports
    Main
    "HOL-Library.Sublist"
    "HOL-Library.Monad_Syntax"
    "HOL-Library.Char_ord"
    "HOL-Library.List_Lexorder"
    "HOL-Library.Product_Lexorder"
begin

section \<open>Strings and character classes\<close>

text \<open>
  A Python \<open>str\<close> is a sequence of code points. It is modelled as a \<open>string\<close>, whose
  characters are the code points below 256; on this range the classes used by the source
  (\<open>str.split\<close>, \<open>str.strip\<close>, and \<open>\s\<close>, \<open>\d\<close>, \<open>\w\<close> of the \<open>re\<close> module on
  \<open>str\<close> patterns) are the following.
\<close>

definition is_space :: "char \<Rightarrow> bool" where
  \<comment> \<open>\<open>str.isspace\<close>: TAB, LF, VT, FF, CR, FS, GS, RS, US, SPACE, NEL, NBSP\<close>
  "is_space c = (let n = (of_char c :: nat) in
     (9 \<le> n \<and> n \<le> 13) \<or> (28 \<le> n \<and> n \<le> 32) \<or> n = 133 \<or> n = 160)"

definition is_digit :: "char \<Rightarrow> bool" where
  \<comment> \<open>\<open>\d\<close>: the decimal digits; below 256 these are \<open>0\<close> to \<open>9\<close>\<close>
  "is_digit c = (let n = (of_char c :: nat) in 48 \<le> n \<and> n \<le> 57)"

definition is_word :: "char \<Rightarrow> bool" where
  \<comment> \<open>\<open>\w\<close>: the alphanumeric characters and the underscore\<close>
  "is_word c = (let n = (of_char c :: nat) in
     (48 \<le> n \<and> n \<le> 57) \<or> (65 \<le> n \<and> n \<le> 90) \<or> n = 95 \<or> (97 \<le> n \<and> n \<le> 122) \<or>
     n = 170 \<or> n = 178 \<or> n = 179 \<or> n = 181 \<or> n = 185 \<or> n = 186 \<or>
     (188 \<le> n \<and> n \<le> 190) \<or> (192 \<le> n \<and> n \<le> 214) \<or> (216 \<le> n \<and> n \<le> 246) \<or>
     (248 \<le> n \<and> n \<le> 255))"

definition is_upper :: "char \<Rightarrow> bool" where
  \<comment> \<open>the class \<open>[A-Z]\<close>\<close>
  "is_upper c = (let n = (of_char c :: nat) in 65 \<le> n \<and> n \<le> 90)"

definition is_lower_dash :: "char \<Rightarrow> bool" where
  \<comment> \<open>the class \<open>[a-z-]\<close>\<close>
  "is_lower_dash c = (let n = (of_char c :: nat) in (97 \<le> n \<and> n \<le> 122) \<or> n = 45)"

function str_replace :: "string \<Rightarrow> string \<Rightarrow> string \<Rightarrow> string" where
  \<comment> \<open>\<open>s.replace(old, new)\<close>: every non-overlapping occurrence, left to right\<close>
  "str_replace old new s =
     (if old = [] then new @ concat (map (\<lambda>c. c # new) s)
      else if s = [] then []
      else if prefix old s then new @ str_replace old new (drop (length old) s)
      else hd s # str_replace old new (tl s))"
  by pat_completeness auto
termination
  by (relation "measure (\<lambda>(old, new, s). length s)") auto

declare str_replace.simps [simp del]

fun split_from :: "string \<Rightarrow> string \<Rightarrow> string list" where
  \<comment> \<open>the scan of \<open>str.split()\<close>; the first argument is the word read so far\<close>
  "split_from w [] = (if w = [] then [] else [w])"
| "split_from w (c # cs) =
     (if is_space c then (if w = [] then split_from [] cs else w # split_from [] cs)
      else split_from (w @ [c]) cs)"

definition str_split :: "string \<Rightarrow> string list" where
  \<comment> \<open>\<open>s.split()\<close>: the maximal runs of characters that are not whitespace\<close>
  "str_split s = split_from [] s"

fun str_join :: "string \<Rightarrow> string list \<Rightarrow> string" where
  \<comment> \<open>\<open>sep.join(ws)\<close>\<close>
  "str_join sep [] = []"
| "str_join sep [w] = w"
| "str_join sep (w # ws) = w @ sep @ str_join sep ws"

definition str_strip :: "string \<Rightarrow> string" where
  \<comment> \<open>\<open>s.strip()\<close>\<close>
  "str_strip s = rev (dropWhile is_space (rev (dropWhile is_space s)))"

section \<open>Regular expressions\<close>

text \<open>
  The patterns of the source are built from literals and greedy repetitions of a character
  class. In each of them the element that follows a repetition cannot start with a
  character of the repeated class, so the backtracking matcher of \<open>re\<close> succeeds exactly
  when the longest run does, and a pattern is modelled as a function from the text at the
  tried position to the outcome of the attempt there.
\<close>

definition re_lit :: "string \<Rightarrow> string \<Rightarrow> string option" where
  \<comment> \<open>a literal; returns the text after it\<close>
  "re_lit l s = (if prefix l s then Some (drop (length l) s) else None)"

definition re_plus :: "(char \<Rightarrow> bool) \<Rightarrow> string \<Rightarrow> (string \<times> string) option" where
  \<comment> \<open>\<open>[class]+\<close>; returns the run and the text after it\<close>
  "re_plus p s = (if takeWhile p s = [] then None else Some (takeWhile p s, dropWhile p s))"

fun re_search :: "(string \<Rightarrow> 'a option) \<Rightarrow> string \<Rightarrow> 'a option" where
  \<comment> \<open>\<open>re.search\<close>: the attempt at the leftmost position where it succeeds\<close>
  "re_search m [] = m []"
| "re_search m (c # cs) = (case m (c # cs) of Some r \<Rightarrow> Some r | None \<Rightarrow> re_search m cs)"

function re_sub :: "(string \<Rightarrow> string option) \<Rightarrow> string \<Rightarrow> string \<Rightarrow> string" where
  \<comment> \<open>\<open>re.sub\<close> for a pattern tried at every position; the pattern returns the text after
     the match, and after an empty match one character is copied\<close>
  "re_sub m repl s =
     (case m s of
        Some r \<Rightarrow>
          if length r < length s then repl @ re_sub m repl r
          else (case s of [] \<Rightarrow> repl | c # cs \<Rightarrow> repl @ c # re_sub m repl cs)
      | None \<Rightarrow> (case s of [] \<Rightarrow> [] | c # cs \<Rightarrow> c # re_sub m repl cs))"
  by pat_completeness auto
termination
  by (relation "measure (\<lambda>(m, repl, s). length s)") auto

declare re_sub.simps [simp del]

definition re_sub_start :: "(string \<Rightarrow> string option) \<Rightarrow> string \<Rightarrow> string \<Rightarrow> string" where
  \<comment> \<open>\<open>re.sub\<close> for a pattern that begins with \<open>^\<close>: it can match at the start only\<close>
  "re_sub_start m repl s = (case m s of Some r \<Rightarrow> repl @ r | None \<Rightarrow> s)"

section \<open>Identifier extraction\<close>

definition match_id :: "string \<Rightarrow> (string \<times> string) option" where
  \<comment> \<open>the group \<open>(\d+\.\d+)\<close>; returns the capture and the text after it\<close>
  "match_id s = do {
     (d1, r1) \<leftarrow> re_plus is_digit s;
     r2 \<leftarrow> re_lit ''.'' r1;
     (d2, r3) \<leftarrow> re_plus is_digit r2;
     Some (d1 @ ''.'' @ d2, r3)
   }"

definition pattern_url :: "string \<Rightarrow> string \<Rightarrow> string option" where
  \<comment> \<open>a literal followed by the group, as in \<open>arxiv\.org/abs/(\d+\.\d+)\<close>\<close>
  "pattern_url l s = do {
     r \<leftarrow> re_lit l s;
     (g, _) \<leftarrow> match_id r;
     Some g
   }"

definition pattern_bare :: "string \<Rightarrow> string option" where
  \<comment> \<open>\<open>^(\d+\.\d+)$\<close>: only at the start; \<open>$\<close> is the end or a last newline\<close>
  "pattern_bare s = do {
     (g, r) \<leftarrow> match_id s;
     if r = [] \<or> r = [CHR 0x0A] then Some g else None
   }"

definition patterns :: "(string \<Rightarrow> string option) list" where
  "patterns =
     [re_search (pattern_url ''arxiv.org/abs/''),
      re_search (pattern_url ''arxiv.org/pdf/''),
      pattern_bare]"

fun first_match :: "(string \<Rightarrow> string option) list \<Rightarrow> string \<Rightarrow> string option" where
  \<comment> \<open>the loop over the patterns\<close>
  "first_match [] url = None"
| "first_match (pattern # ps) url =
     (case pattern url of Some g \<Rightarrow> Some g | None \<Rightarrow> first_match ps url)"

definition extractPaperId :: "string \<Rightarrow> string option" where
  "extractPaperId url = first_match patterns url"

section \<open>Text normalisation\<close>

definition cleanText :: "string \<Rightarrow> string" where
  "cleanText text =
     (let text1 = str_replace [CHR 0x0A] '' '' text;
          text2 = str_join '' '' (str_split text1)
      in str_strip text2)"

section \<open>Data model\<close>

record Paper =
  id_arxiv :: string
  title :: string
  abstract :: string
  authors :: "string list"
  categories :: "string list"
  url_abstract :: string
  url_pdf :: string
  date_published :: "string option"
  date_updated :: "string option"

record SearchResult =
  query :: string
  total_results :: int
  papers :: "Paper list"
  page :: int
  page_size :: int

record Category =
  code :: string
  name :: string
  group :: string

datatype error =
    TypeError
  | ValueError
  | FetchError string

section \<open>The search-results page\<close>

text \<open>
  The HTML parser and its selectors are outside the program. A parsed page is what the
  selectors of the source return on it: the text of a selected element, \<open>None\<close> where
  \<open>select_one\<close> finds nothing, and the list of texts for \<open>select\<close>.
\<close>

record result_block =
  title_elem :: "string option"  \<comment> \<open>\<open>.title\<close>\<close>
  abstract_full_elem :: "string option"  \<comment> \<open>\<open>.abstract-full\<close>\<close>
  abstract_elem :: "string option"  \<comment> \<open>\<open>.abstract\<close>\<close>
  url_elem :: "string option option"
    \<comment> \<open>\<open>.list-title > span > a\<close> and its \<open>href\<close>, \<open>Some None\<close> for an anchor without one\<close>
  authors_elem :: "string list"  \<comment> \<open>\<open>.authors a\<close>\<close>
  tags :: "string list"  \<comment> \<open>\<open>.tag.is-small\<close>\<close>
  date_elem :: "string option"  \<comment> \<open>\<open>.is-size-7\<close>\<close>

record search_page =
  items :: "result_block list"  \<comment> \<open>\<open>.arxiv-result\<close>\<close>
  total_text :: "string option"  \<comment> \<open>\<open>.title.is-clearfix\<close>\<close>

definition pattern_total :: "string \<Rightarrow> string option" where
  \<comment> \<open>\<open>of ([\d,]+) results\<close>\<close>
  "pattern_total s = do {
     r0 \<leftarrow> re_lit ''of '' s;
     (g, r1) \<leftarrow> re_plus (\<lambda>c. is_digit c \<or> c = CHR '','') r0;
     _ \<leftarrow> re_lit '' results'' r1;
     Some g
   }"

definition py_int :: "string \<Rightarrow> error + int" where
  \<comment> \<open>\<open>int(s)\<close> for a string of decimal digits; the empty string is rejected. The
     limit of the interpreter on the number of digits is left out.\<close>
  "py_int s =
     (if s = [] then Inl ValueError
      else Inr (foldl (\<lambda>a c. 10 * a + int (of_char c - 48)) 0 s))"

definition pattern_toggle :: "string \<Rightarrow> string option" where
  \<comment> \<open>\<open>\s*(Less|More)\s*$\<close>: a match always runs to the end of the text\<close>
  "pattern_toggle s = do {
     r1 \<leftarrow> Some (dropWhile is_space s);
     r2 \<leftarrow> (case re_lit ''Less'' r1 of Some r \<Rightarrow> Some r | None \<Rightarrow> re_lit ''More'' r1);
     r3 \<leftarrow> Some (dropWhile is_space r2);
     if r3 = [] then Some [] else None
   }"

definition pattern_label :: "string \<Rightarrow> string option" where
  \<comment> \<open>\<open>^Abstract:\s*\<close>\<close>
  "pattern_label s = do {
     r \<leftarrow> re_lit ''Abstract:'' s;
     Some (dropWhile is_space r)
   }"

definition pattern_submitted :: "string \<Rightarrow> string option" where
  \<comment> \<open>\<open>Submitted\s+(\d+\s+\w+,?\s+\d+)\<close>\<close>
  "pattern_submitted s = do {
     r0 \<leftarrow> re_lit ''Submitted'' s;
     (_, r1) \<leftarrow> re_plus is_space r0;
     (d1, r2) \<leftarrow> re_plus is_digit r1;
     (w1, r3) \<leftarrow> re_plus is_space r2;
     (m1, r4) \<leftarrow> re_plus is_word r3;
     (c1, r5) \<leftarrow> Some (if prefix '','' r4 then ('','', tl r4) else ([], r4));
     (w2, r6) \<leftarrow> re_plus is_space r5;
     (d2, _) \<leftarrow> re_plus is_digit r6;
     Some (d1 @ w1 @ m1 @ c1 @ w2 @ d2)
   }"

definition parse_block :: "result_block \<Rightarrow> error + Paper" where
  \<comment> \<open>the body of the \<open>try\<close>; \<open>Inl\<close> is the exception that the \<open>except\<close> clause swallows\<close>
  "parse_block item =
     (let title' = (case title_elem item of Some t \<Rightarrow> cleanText t | None \<Rightarrow> ''Unknown Title'');
          abstract_elem' =
            (case abstract_full_elem item of Some a \<Rightarrow> Some a | None \<Rightarrow> abstract_elem item);
          abstract0 = (case abstract_elem' of Some a \<Rightarrow> cleanText a | None \<Rightarrow> []);
          abstract1 = re_sub pattern_toggle [] abstract0;
          abstract2 = re_sub_start pattern_label [] abstract1;
          url_abstract' = (case url_elem item of Some href \<Rightarrow> href | None \<Rightarrow> Some [])
      in case url_abstract' of
           None \<Rightarrow> Inl TypeError
         | Some url \<Rightarrow>
             (let id_arxiv' = (case extractPaperId url of Some g \<Rightarrow> g | None \<Rightarrow> []);
                  authors' = map str_strip (authors_elem item);
                  categories' =
                    filter (\<lambda>cat_text. cat_text \<noteq> [] \<and> \<not> prefix ''doi:'' cat_text)
                      (map str_strip (tags item));
                  date_published' =
                    (case date_elem item of
                       Some date_text \<Rightarrow> re_search pattern_submitted date_text
                     | None \<Rightarrow> None)
              in Inr \<lparr>id_arxiv = id_arxiv', title = title', abstract = abstract2,
                       authors = authors', categories = categories', url_abstract = url,
                       url_pdf =
                         (if id_arxiv' \<noteq> [] then ''https://arxiv.org/pdf/'' @ id_arxiv' @ ''.pdf''
                          else []),
                       date_published = date_published', date_updated = None\<rparr>))"

fun parse_items :: "result_block list \<Rightarrow> Paper list" where
  \<comment> \<open>the loop over the result blocks: a block that raises is skipped\<close>
  "parse_items [] = []"
| "parse_items (item # rest) =
     (case parse_block item of
        Inr paper \<Rightarrow> paper # parse_items rest
      | Inl _ \<Rightarrow> parse_items rest)"

definition parse_total :: "string option \<Rightarrow> error + int" where
  \<comment> \<open>the total count of the page header; the conversion is outside any \<open>try\<close>\<close>
  "parse_total total_text' =
     (case total_text' of
        None \<Rightarrow> Inr 0
      | Some t \<Rightarrow>
          (case re_search pattern_total t of
             None \<Rightarrow> Inr 0
           | Some g \<Rightarrow> py_int (str_replace '','' [] g)))"

definition parseSearchResults ::
  "(string \<Rightarrow> search_page) \<Rightarrow> string \<Rightarrow> string \<Rightarrow> int \<Rightarrow> int \<Rightarrow> error + SearchResult" where
  \<comment> \<open>the first argument is the HTML parser\<close>
  "parseSearchResults soup html query' page' page_size' =
     (case parse_total (total_text (soup html)) of
        Inl e \<Rightarrow> Inl e
      | Inr total_results' \<Rightarrow>
          Inr \<lparr>query = query', total_results = total_results', papers = parse_items (items (soup html)),
                page = page', page_size = page_size'\<rparr>)"

section \<open>Tables\<close>

definition ARXIV_CATEGORIES :: "(string \<times> string) list" where
  \<comment> \<open>the dictionary, in insertion order\<close>
  "ARXIV_CATEGORIES =
     [(''cs.AI'', ''Artificial Intelligence''),
      (''cs.CL'', ''Computation and Language''),
      (''cs.CV'', ''Computer Vision and Pattern Recognition''),
      (''cs.LG'', ''Machine Learning''),
      (''cs.NE'', ''Neural and Evolutionary Computing''),
      (''cs.RO'', ''Robotics''),
      (''cs.SE'', ''Software Engineering''),
      (''cs.DS'', ''Data Structures and Algorithms''),
      (''cs.DB'', ''Databases''),
      (''cs.DC'', ''Distributed, Parallel, and Cluster Computing''),
      (''cs.CR'', ''Cryptography and Security''),
      (''cs.HC'', ''Human-Computer Interaction''),
      (''cs.IR'', ''Information Retrieval''),
      (''cs.IT'', ''Information Theory''),
      (''cs.MA'', ''Multiagent Systems''),
      (''cs.PL'', ''Programming Languages''),
      (''stat.ML'', ''Machine Learning (Statistics)''),
      (''stat.TH'', ''Statistics Theory''),
      (''stat.ME'', ''Methodology''),
      (''math.OC'', ''Optimization and Control''),
      (''math.ST'', ''Statistics Theory''),
      (''math.PR'', ''Probability''),
      (''math.NA'', ''Numerical Analysis''),
      (''quant-ph'', ''Quantum Physics''),
      (''cond-mat'', ''Condensed Matter''),
      (''hep-th'', ''High Energy Physics - Theory''),
      (''eess.SP'', ''Signal Processing''),
      (''eess.IV'', ''Image and Video Processing''),
      (''eess.AS'', ''Audio and Speech Processing''),
      (''q-bio.NC'', ''Neurons and Cognition''),
      (''q-bio.QM'', ''Quantitative Methods''),
      (''q-fin.ST'', ''Statistical Finance''),
      (''q-fin.CP'', ''Computational Finance'')]"

definition SORT_OPTIONS :: "(string \<times> string) list" where
  "SORT_OPTIONS =
     [(''relevance'', []),
      (''date_desc'', ''-announced_date_first''),
      (''date_asc'', ''announced_date_first''),
      (''submissions_desc'', ''-submittedDate''),
      (''submissions_asc'', ''submittedDate'')]"

definition dict_get :: "('k \<times> 'v) list \<Rightarrow> 'k \<Rightarrow> 'v \<Rightarrow> 'v" where
  \<comment> \<open>\<open>d.get(key, default)\<close>\<close>
  "dict_get d key dflt = (case map_of d key of Some v \<Rightarrow> v | None \<Rightarrow> dflt)"

section \<open>Building a request\<close>

definition URL_BASE :: string where
  "URL_BASE = ''https://arxiv.org''"

fun digits_of :: "nat \<Rightarrow> string" where
  "digits_of n =
     (if n < 10 then [char_of (48 + n)]
      else digits_of (n div 10) @ [char_of (48 + n mod 10)])"

declare digits_of.simps [simp del]

definition str_int :: "int \<Rightarrow> string" where
  \<comment> \<open>an integer inside an f-string\<close>
  "str_int i = (if i < 0 then CHR ''-'' # digits_of (nat (- i)) else digits_of (nat i))"

definition always_safe :: "char \<Rightarrow> bool" where
  \<comment> \<open>the characters that \<open>urllib.parse.quote\<close> never quotes\<close>
  "always_safe c = (let n = (of_char c :: nat) in
     (48 \<le> n \<and> n \<le> 57) \<or> (65 \<le> n \<and> n \<le> 90) \<or> (97 \<le> n \<and> n \<le> 122) \<or>
     c = CHR ''_'' \<or> c = CHR ''.'' \<or> c = CHR ''-'' \<or> c = CHR ''~'')"

definition utf8 :: "char \<Rightarrow> nat list" where
  \<comment> \<open>the UTF-8 bytes of a code point below 256\<close>
  "utf8 c = (let n = (of_char c :: nat) in
     if n < 128 then [n] else [192 + n div 64, 128 + n mod 64])"

definition percent :: "nat \<Rightarrow> string" where
  "percent b = [CHR ''%'', ''0123456789ABCDEF'' ! (b div 16), ''0123456789ABCDEF'' ! (b mod 16)]"

definition quote_plus :: "string \<Rightarrow> string" where
  \<comment> \<open>\<open>urllib.parse.quote_plus\<close> with its default arguments\<close>
  "quote_plus s =
     concat (map (\<lambda>c. if always_safe c then [c]
                       else if c = CHR '' '' then ''+''
                       else concat (map percent (utf8 c))) s)"

definition truthy :: "string option \<Rightarrow> bool" where
  \<comment> \<open>the truth value of an optional string: neither \<open>None\<close> nor empty\<close>
  "truthy x = (case x of Some v \<Rightarrow> v \<noteq> [] | None \<Rightarrow> False)"

definition term_of :: "string \<Rightarrow> string option \<Rightarrow> string list" where
  \<comment> \<open>\<open>if x: terms.append(f"{field}{x}")\<close>\<close>
  "term_of field x = (case x of Some v \<Rightarrow> (if v \<noteq> [] then [field @ v] else []) | None \<Rightarrow> [])"

section \<open>The outside world\<close>

text \<open>
  The HTTP client and the HTML parser are collaborators. A request either fails (the
  client raises, or \<open>raise_for_status\<close> does) or yields the body of the response. The
  URLs requested are recorded in a log threaded through every adapter.
\<close>

record paper_page =
  title_mathjax :: "string option"  \<comment> \<open>\<open>.title.mathjax\<close>\<close>
  abstract_mathjax :: "string option"  \<comment> \<open>\<open>.abstract.mathjax\<close>\<close>
  authors_div :: "string list option"  \<comment> \<open>\<open>.authors\<close> and the anchors in it\<close>
  subjects_cell :: "(string list \<times> string) option"
    \<comment> \<open>\<open>.tablecell.subjects\<close>: the texts of its \<open>span.primary-subject\<close>, and its own text\<close>
  dateline :: "string option"  \<comment> \<open>\<open>.dateline\<close>\<close>

datatype tag = DT | DD

record entry =
  tag_name :: tag
  id_link :: "string option"  \<comment> \<open>the \<open>href\<close> of \<open>a[href*='/abs/']\<close>\<close>
  list_title :: "string option"  \<comment> \<open>\<open>.list-title\<close>\<close>
  list_authors :: "string list option"  \<comment> \<open>\<open>.list-authors\<close> and the anchors in it\<close>
  list_subjects :: "string option"  \<comment> \<open>\<open>.list-subjects\<close>\<close>

record env =
  http_get :: "bool \<Rightarrow> string \<Rightarrow> error + string"
    \<comment> \<open>\<open>follow_redirects\<close> and the URL; the body, or the error raised\<close>
  soup_search :: "string \<Rightarrow> search_page"
  soup_paper :: "string \<Rightarrow> paper_page"
  soup_listing :: "string \<Rightarrow> entry list"  \<comment> \<open>\<open>dl#articles dt, dl#articles dd\<close>\<close>
  set_to_list :: "string set \<Rightarrow> string list"  \<comment> \<open>the iteration order of a \<open>set\<close>\<close>

record RecentListing =
  recent_category :: string
  recent_category_name :: string
  recent_count :: int
  recent_papers :: "Paper list"

datatype reply =
    Error_reply string  \<comment> \<open>the mapping \<open>{"error": ...}\<close>\<close>
  | Search_reply SearchResult
  | Paper_reply Paper
  | Recent_reply RecentListing

type_synonym log = "string list"

definition client_get :: "env \<Rightarrow> bool \<Rightarrow> string \<Rightarrow> log \<Rightarrow> (error + string) \<times> log" where
  "client_get e follow url lg = (http_get e follow url, lg @ [url])"

section \<open>Plain and advanced search\<close>

definition search ::
  "env \<Rightarrow> string \<Rightarrow> string option \<Rightarrow> string option \<Rightarrow> string \<Rightarrow> int \<Rightarrow> int \<Rightarrow> log
     \<Rightarrow> (error + reply) \<times> log" where
  "search e query' category' author' sort_by' page' page_size0 lg =
     (let page_size' = min page_size0 50;
          start = (page' - 1) * page_size';
          search_terms =
            (if query' \<noteq> [] then [query'] else []) @
            term_of ''au:'' author' @ term_of ''cat:'' category';
          full_query =
            (if length search_terms > 1 then str_join '' AND '' search_terms
             else (case search_terms of t # _ \<Rightarrow> t | [] \<Rightarrow> []));
          encoded_query = quote_plus full_query;
          sort_order = dict_get SORT_OPTIONS sort_by' [];
          url = URL_BASE @ ''/search/?query='' @ encoded_query @
                ''&searchtype=all&abstracts=show'' @
                ''&order='' @ sort_order @ ''&size='' @ str_int page_size' @
                ''&start='' @ str_int start
      in case client_get e False url lg of
           (Inl err, lg') \<Rightarrow> (Inl err, lg')
         | (Inr text, lg') \<Rightarrow>
             (case parseSearchResults (soup_search e) text full_query page' page_size' of
                Inl err \<Rightarrow> (Inl err, lg')
              | Inr result \<Rightarrow> (Inr (Search_reply result), lg')))"

definition searchAdvanced ::
  "env \<Rightarrow> string option \<Rightarrow> string option \<Rightarrow> string option \<Rightarrow> string option \<Rightarrow> string option
     \<Rightarrow> string option \<Rightarrow> string option \<Rightarrow> string \<Rightarrow> int \<Rightarrow> int \<Rightarrow> log
     \<Rightarrow> (error + reply) \<times> log" where
  "searchAdvanced e title' abstract' author' category' id_arxiv' date_from date_to
       sort_by' page' page_size0 lg =
     (let page_size' = min page_size0 50;
          start = (page' - 1) * page_size';
          query_parts =
            term_of ''ti:'' title' @ term_of ''abs:'' abstract' @ term_of ''au:'' author' @
            term_of ''cat:'' category' @ term_of ''id:'' id_arxiv'
      in if query_parts = [] then
           (Inr (Error_reply ''At least one search field is required''), lg)
         else
           (let full_query = str_join '' AND '' query_parts;
                encoded_query = quote_plus full_query;
                sort_order = dict_get SORT_OPTIONS sort_by' [];
                url0 = URL_BASE @ ''/search/advanced?terms-0-operator=AND'' @
                       ''&terms-0-term='' @ encoded_query @ ''&terms-0-field=all'' @
                       ''&classification-physics_archives=all'' @
                       ''&classification-include_cross_list=include'' @
                       ''&abstracts=show&size='' @ str_int page_size' @
                       ''&start='' @ str_int start @
                       ''&order='' @ sort_order;
                url1 = (case date_from of
                          Some d \<Rightarrow> (if d \<noteq> [] then url0 @ ''&date-from_date='' @ d else url0)
                        | None \<Rightarrow> url0);
                url = (case date_to of
                         Some d \<Rightarrow> (if d \<noteq> [] then url1 @ ''&date-to_date='' @ d else url1)
                       | None \<Rightarrow> url1)
            in case client_get e False url lg of
                 (Inl err, lg') \<Rightarrow> (Inl err, lg')
               | (Inr text, lg') \<Rightarrow>
                   (case parseSearchResults (soup_search e) text full_query page' page_size' of
                      Inl err \<Rightarrow> (Inl err, lg')
                    | Inr result \<Rightarrow> (Inr (Search_reply result), lg'))))"

section \<open>A single paper\<close>

definition pattern_paren :: "string \<Rightarrow> string option" where
  \<comment> \<open>\<open>\(([^)]+)\)\<close>\<close>
  "pattern_paren s = do {
     r0 \<leftarrow> re_lit ''('' s;
     (g, r1) \<leftarrow> re_plus (\<lambda>c. c \<noteq> CHR '')'') r0;
     _ \<leftarrow> re_lit '')'' r1;
     Some g
   }"

definition pattern_code :: "string \<Rightarrow> (string \<times> string) option" where
  \<comment> \<open>\<open>([a-z-]+\.[A-Z]+)\<close>; returns the capture and the text after it\<close>
  "pattern_code s = do {
     (a, r1) \<leftarrow> re_plus is_lower_dash s;
     r2 \<leftarrow> re_lit ''.'' r1;
     (b, r3) \<leftarrow> re_plus is_upper r2;
     Some (a @ ''.'' @ b, r3)
   }"

definition pattern_paren_code :: "string \<Rightarrow> (string \<times> string) option" where
  \<comment> \<open>\<open>\(([a-z-]+\.[A-Z]+)\)\<close>\<close>
  "pattern_paren_code s = do {
     r0 \<leftarrow> re_lit ''('' s;
     (g, r1) \<leftarrow> pattern_code r0;
     r2 \<leftarrow> re_lit '')'' r1;
     Some (g, r2)
   }"

function re_findall :: "(string \<Rightarrow> (string \<times> string) option) \<Rightarrow> string \<Rightarrow> string list" where
  \<comment> \<open>\<open>re.findall\<close> for a pattern with one group: the captures of the successive matches\<close>
  "re_findall m s =
     (case m s of
        Some (g, r) \<Rightarrow>
          if length r < length s then g # re_findall m r
          else (case s of [] \<Rightarrow> [g] | c # cs \<Rightarrow> g # re_findall m cs)
      | None \<Rightarrow> (case s of [] \<Rightarrow> [] | c # cs \<Rightarrow> re_findall m cs))"
  by pat_completeness auto
termination
  by (relation "measure (\<lambda>(m, s). length s)") auto

declare re_findall.simps [simp del]

definition date_group :: "string \<Rightarrow> string option" where
  \<comment> \<open>the group \<open>(\d+\s+\w+\s+\d+)\<close>\<close>
  "date_group s = do {
     (d1, r1) \<leftarrow> re_plus is_digit s;
     (w1, r2) \<leftarrow> re_plus is_space r1;
     (m1, r3) \<leftarrow> re_plus is_word r2;
     (w2, r4) \<leftarrow> re_plus is_space r3;
     (d2, _) \<leftarrow> re_plus is_digit r4;
     Some (d1 @ w1 @ m1 @ w2 @ d2)
   }"

fun re_lazy_dot :: "(string \<Rightarrow> 'a option) \<Rightarrow> string \<Rightarrow> 'a option" where
  \<comment> \<open>\<open>.*?\<close> before the rest of a pattern: the fewest characters, none of them a newline\<close>
  "re_lazy_dot m [] = m []"
| "re_lazy_dot m (c # cs) =
     (case m (c # cs) of
        Some r \<Rightarrow> Some r
      | None \<Rightarrow> if c = CHR 0x0A then None else re_lazy_dot m cs)"

definition pattern_dateline :: "string \<Rightarrow> string option" where
  \<comment> \<open>\<open>Submitted.*?(\d+\s+\w+\s+\d+)\<close>\<close>
  "pattern_dateline s = do {
     r0 \<leftarrow> re_lit ''Submitted'' s;
     re_lazy_dot date_group r0
   }"

definition add_new :: "string list \<Rightarrow> string list \<Rightarrow> string list" where
  \<comment> \<open>\<open>for cat in cat_matches: if cat not in categories: categories.append(cat)\<close>\<close>
  "add_new categories' cat_matches =
     foldl (\<lambda>cs cat. if cat \<in> set cs then cs else cs @ [cat]) categories' cat_matches"

definition getPaper :: "env \<Rightarrow> string \<Rightarrow> log \<Rightarrow> (error + reply) \<times> log" where
  "getPaper e id_or_url lg =
     (case extractPaperId id_or_url of
        None \<Rightarrow> (Inr (Error_reply (''Could not extract arXiv ID from: '' @ id_or_url)), lg)
      | Some id_arxiv' \<Rightarrow>
          if id_arxiv' = [] then
            (Inr (Error_reply (''Could not extract arXiv ID from: '' @ id_or_url)), lg)
          else
            (let url_abstract' = URL_BASE @ ''/abs/'' @ id_arxiv'
             in case client_get e True url_abstract' lg of
                  (Inl err, lg') \<Rightarrow> (Inl err, lg')
                | (Inr text, lg') \<Rightarrow>
                    (let soup = soup_paper e text;
                         title' =
                           (case title_mathjax soup of
                              Some t \<Rightarrow> cleanText (str_replace ''Title:'' [] t)
                            | None \<Rightarrow> ''Unknown'');
                         abstract' =
                           (case abstract_mathjax soup of
                              Some a \<Rightarrow> cleanText (str_replace ''Abstract:'' [] a)
                            | None \<Rightarrow> []);
                         authors' =
                           (case authors_div soup of
                              Some anchors \<Rightarrow> map str_strip anchors
                            | None \<Rightarrow> []);
                         categories' =
                           (case subjects_cell soup of
                              Some (spans, subj_text) \<Rightarrow>
                                add_new (List.map_filter (re_search pattern_paren) spans)
                                  (re_findall pattern_paren_code subj_text)
                            | None \<Rightarrow> []);
                         date_submitted =
                           (case dateline soup of
                              Some t \<Rightarrow> re_search pattern_dateline t
                            | None \<Rightarrow> None)
                     in (Inr (Paper_reply
                           \<lparr>id_arxiv = id_arxiv', title = title', abstract = abstract',
                            authors = authors', categories = categories',
                            url_abstract = url_abstract',
                            url_pdf = URL_BASE @ ''/pdf/'' @ id_arxiv' @ ''.pdf'',
                            date_published = date_submitted, date_updated = None\<rparr>), lg'))))"

section \<open>The category list\<close>

definition category_group :: "string \<Rightarrow> string" where
  \<comment> \<open>the chain of \<open>startswith\<close> tests\<close>
  "category_group code' =
     (if prefix ''cs.'' code' then ''Computer Science''
      else if prefix ''stat.'' code' then ''Statistics''
      else if prefix ''math.'' code' then ''Mathematics''
      else if prefix ''eess.'' code' then ''Electrical Engineering''
      else if prefix ''q-bio.'' code' then ''Quantitative Biology''
      else if prefix ''q-fin.'' code' then ''Quantitative Finance''
      else ''Physics'')"

definition category_list :: "(string \<times> string) list \<Rightarrow> Category list" where
  \<comment> \<open>the body of \<open>listCategories\<close> over a table\<close>
  "category_list table =
     sort_key (\<lambda>x. (group x, code x))
       (map (\<lambda>(code', name'). \<lparr>code = code', name = name', group = category_group code'\<rparr>)
          table)"

definition listCategories :: "Category list option \<Rightarrow> Category list \<times> Category list option" where
  \<comment> \<open>the argument and the second result are the one-entry cache of the decorator\<close>
  "listCategories cache =
     (case cache of
        Some result \<Rightarrow> (result, cache)
      | None \<Rightarrow> (category_list ARXIV_CATEGORIES, Some (category_list ARXIV_CATEGORIES)))"

section \<open>Recent papers of a category\<close>

definition recent_paper :: "env \<Rightarrow> entry \<Rightarrow> entry \<Rightarrow> Paper option" where
  \<comment> \<open>one term/definition pair; \<open>None\<close> when no identifier is found\<close>
  "recent_paper e dt dd =
     (let id_arxiv' =
            (case id_link dt of
               Some href \<Rightarrow>
                 (case re_search (pattern_url ''/abs/'') href of Some g \<Rightarrow> g | None \<Rightarrow> [])
             | None \<Rightarrow> []);
          title' =
            (case list_title dd of
               Some t \<Rightarrow> cleanText (str_replace ''Title:'' [] t)
             | None \<Rightarrow> []);
          authors' = (case list_authors dd of Some anchors \<Rightarrow> map str_strip anchors | None \<Rightarrow> []);
          categories' =
            (case list_subjects dd of
               Some subj_text \<Rightarrow> set_to_list e (set (re_findall pattern_code subj_text))
             | None \<Rightarrow> [])
      in if id_arxiv' \<noteq> [] then
           Some \<lparr>id_arxiv = id_arxiv', title = title', abstract = [],
                 authors = authors', categories = categories',
                 url_abstract = URL_BASE @ ''/abs/'' @ id_arxiv',
                 url_pdf = URL_BASE @ ''/pdf/'' @ id_arxiv' @ ''.pdf'',
                 date_published = None, date_updated = None\<rparr>
         else None)"

fun recent_loop :: "env \<Rightarrow> entry list \<Rightarrow> Paper list" where
  \<comment> \<open>the \<open>while\<close> loop over the entries; the argument is \<open>entries[i:]\<close>\<close>
  "recent_loop e (x # y # rest) =
     (if tag_name x = DT \<and> tag_name y = DD then
        (case recent_paper e x y of Some paper \<Rightarrow> [paper] | None \<Rightarrow> []) @ recent_loop e rest
      else recent_loop e (y # rest))"
| "recent_loop e [x] = []"
| "recent_loop e [] = []"

definition getRecent :: "env \<Rightarrow> string \<Rightarrow> int \<Rightarrow> log \<Rightarrow> (error + reply) \<times> log" where
  "getRecent e category' count0 lg =
     (let count' = min count0 50;
          url = URL_BASE @ ''/list/'' @ category' @ ''/recent?skip=0&show='' @ str_int count'
      in case client_get e True url lg of
           (Inl err, lg') \<Rightarrow> (Inl err, lg')
         | (Inr text, lg') \<Rightarrow>
             (let papers' = recent_loop e (soup_listing e text)
              in (Inr (Recent_reply
                    \<lparr>recent_category = category',
                     recent_category_name = dict_get ARXIV_CATEGORIES category' category',
                     recent_count = int (length papers'),
                     recent_papers = papers'\<rparr>), lg')))"

section \<open>Predicates of the statements\<close>

definition good_word :: "string \<Rightarrow> bool" where
  \<comment> \<open>a word: not empty, and without whitespace\<close>
  "good_word w = (w \<noteq> [] \<and> (\<forall>c\<in>set w. \<not> is_space c))"

definition id_form :: "string \<Rightarrow> bool" where
  \<comment> \<open>an identifier as the claims write it: digits, a dot, digits\<close>
  "id_form c = (\<exists>d1 d2. c = d1 @ ''.'' @ d2 \<and> d1 \<noteq> [] \<and> d2 \<noteq> [] \<and>
                  list_all is_digit d1 \<and> list_all is_digit d2)"

definition spec_at :: "string \<Rightarrow> string \<Rightarrow> string \<Rightarrow> bool" where
  \<comment> \<open>the text starts with the literal and then the identifier, taken as long as possible\<close>
  "spec_at l t c = (\<exists>r. t = l @ c @ r \<and> id_form c \<and> (r = [] \<or> \<not> is_digit (hd r)))"

definition spec_first :: "string \<Rightarrow> string \<Rightarrow> string \<Rightarrow> bool" where
  \<comment> \<open>the identifier follows the leftmost occurrence of the literal that one follows\<close>
  "spec_first l s c = (\<exists>n\<le>length s. spec_at l (drop n s) c \<and>
                          (\<forall>k<n. \<forall>c'. \<not> spec_at l (drop k s) c'))"

definition spec_contains :: "string \<Rightarrow> string \<Rightarrow> bool" where
  \<comment> \<open>somewhere in the text the literal is followed by an identifier\<close>
  "spec_contains l s = (\<exists>pre c rest. s = pre @ l @ c @ rest \<and> id_form c)"

definition spec_bare :: "string \<Rightarrow> string \<Rightarrow> bool" where
  \<comment> \<open>the text is the identifier, possibly with one newline after it\<close>
  "spec_bare s c = (id_form c \<and> (s = c \<or> s = c @ [CHR 0x0A]))"

definition env0 :: env where
  \<comment> \<open>a sample world: every request answers an empty page\<close>
  "env0 = \<lparr>http_get = (\<lambda>follow url. Inr []),
            soup_search = (\<lambda>html. \<lparr>items = [], total_text = None\<rparr>),
            soup_paper = (\<lambda>html. \<lparr>title_mathjax = None, abstract_mathjax = None,
                           authors_div = None, subjects_cell = None, dateline = None\<rparr>),
            soup_listing = (\<lambda>html. []),
            set_to_list = sorted_list_of_set\<rparr>"

definition paper_inv :: "Paper \<Rightarrow> bool" where
  \<comment> \<open>the invariant of the data model: no PDF locator without an identifier\<close>
  "paper_inv p = (id_arxiv p = [] \<longrightarrow> url_pdf p = [])"

definition is_toggle :: "string \<Rightarrow> bool" where
  \<comment> \<open>a label of the toggle of the user interface\<close>
  "is_toggle lab = (lab = ''Less'' \<or> lab = ''More'')"

definition toggle_tail :: "string \<Rightarrow> bool" where
  \<comment> \<open>a toggle label with whitespace around it, and nothing else\<close>
  "toggle_tail u = (\<exists>w lab w'. u = w @ lab @ w' \<and> list_all is_space w \<and> is_toggle lab \<and>
                      list_all is_space w')"

definition ends_with_toggle :: "string \<Rightarrow> bool" where
  \<comment> \<open>the text ends with a toggle label\<close>
  "ends_with_toggle s = (\<exists>t u. s = t @ u \<and> toggle_tail u)"

definition adjacent_pairs :: "entry list \<Rightarrow> (entry \<times> entry) list" where
  \<comment> \<open>the term/definition pairs of a listing: every term directly followed by a definition\<close>
  "adjacent_pairs es =
     filter (\<lambda>(x, y). tag_name x = DT \<and> tag_name y = DD) (zip es (tl es))"

definition has_identifier :: "entry \<Rightarrow> bool" where
  \<comment> \<open>the term has a link in which \<open>/abs/\<close> is followed by an identifier\<close>
  "has_identifier x = (\<exists>href. id_link x = Some href \<and> spec_contains ''/abs/'' href)"

definition occurs :: "string \<Rightarrow> string \<Rightarrow> bool" where
  \<comment> \<open>the first text occurs somewhere in the second\<close>
  "occurs l s = (\<exists>a b. s = a @ l @ b)"

section \<open>Sample pages\<close>

definition sample_entries :: "entry list" where
  \<comment> \<open>a listing of two pairs; the term of the second has no link to an abstract page\<close>
  "sample_entries =
     [\<lparr>tag_name = DT, id_link = Some ''/abs/2401.01234'', list_title = None,
       list_authors = None, list_subjects = None\<rparr>,
      \<lparr>tag_name = DD, id_link = None, list_title = Some ''Title: A  Paper'',
       list_authors = Some ['' A. Author ''],
       list_subjects = Some ''Subjects: Artificial Intelligence (cs.AI)''\<rparr>,
      \<lparr>tag_name = DT, id_link = None, list_title = None,
       list_authors = None, list_subjects = None\<rparr>,
      \<lparr>tag_name = DD, id_link = None, list_title = Some ''Title: No Link'',
       list_authors = None, list_subjects = None\<rparr>]"

definition block_first :: result_block where
  "block_first =
     \<lparr>title_elem = Some ''First  Paper'',
      abstract_full_elem = Some ''Abstract: We study things. Less'',
      abstract_elem = Some ''Abstract: We study More'',
      url_elem = Some (Some ''https://arxiv.org/abs/2301.00001''),
      authors_elem = ['' A. Author ''], tags = [''cs.AI'', ''doi:10.1000/1''],
      date_elem = Some ''Submitted 1 January, 2023; originally announced January 2023.''\<rparr>"

definition block_malformed :: result_block where
  \<comment> \<open>a block without title and without link to the abstract page\<close>
  "block_malformed =
     \<lparr>title_elem = None, abstract_full_elem = None, abstract_elem = Some ''Abstract: Orphan'',
      url_elem = None, authors_elem = [], tags = [], date_elem = None\<rparr>"

definition block_third :: result_block where
  "block_third =
     \<lparr>title_elem = Some ''Third Paper'', abstract_full_elem = None, abstract_elem = None,
      url_elem = Some (Some ''https://arxiv.org/abs/2301.00003''),
      authors_elem = [], tags = [], date_elem = None\<rparr>"


definition sample_search_page :: search_page where
  "sample_search_page =
     \<lparr>items = [block_first, block_malformed, block_third],
      total_text = Some ''Showing 1-3 of 1,234 results for all: test''\<rparr>"

definition sample_paper_page :: paper_page where
  "sample_paper_page =
     \<lparr>title_mathjax = Some ''Title: A Paper'',
      abstract_mathjax = Some ''Abstract: We need More'',
      authors_div = Some [''A. Author''],
      subjects_cell = Some ([''Artificial Intelligence (cs.AI)''],
                            ''Subjects: Artificial Intelligence (cs.AI); Machine Learning (cs.LG)''),
      dateline = Some ''[Submitted on 1 Jan 2023]''\<rparr>"

definition env1 :: env where
  \<comment> \<open>a sample world: every request succeeds and is answered by the sample pages\<close>
  "env1 = \<lparr>http_get = (\<lambda>follow url. Inr url),
            soup_search = (\<lambda>html. sample_search_page),
            soup_paper = (\<lambda>html. sample_paper_page),
            soup_listing = (\<lambda>html. sample_entries),
            set_to_list = sorted_list_of_set\<rparr>"

definition sample_paper :: Paper where
  "sample_paper =
     \<lparr>id_arxiv = ''2401.01234'', title = ''A Paper'', abstract = [],
      authors = [''A. Author''], categories = [''cs.AI''],
      url_abstract = ''https://arxiv.org/abs/2401.01234'',
      url_pdf = ''https://arxiv.org/pdf/2401.01234.pdf'',
      date_published = None, date_updated = None\<rparr>"

definition sample_listing :: RecentListing where
  "sample_listing =
     \<lparr>recent_category = ''xx.YY'', recent_category_name = ''xx.YY'', recent_count = 1,
      recent_papers = [sample_paper]\<rparr>"

definition unidentified_paper :: Paper where
  "unidentified_paper =
     \<lparr>id_arxiv = [], title = ''Unknown Title'', abstract = ''Orphan'', authors = [],
      categories = [], url_abstract = [], url_pdf = [],
      date_published = None, date_updated = None\<rparr>"

definition sample_result :: SearchResult where
  "sample_result =
     \<lparr>query = ''test'', total_results = 1234,
      papers =
        [\<lparr>id_arxiv = ''2301.00001'', title = ''First Paper'', abstract = ''We study things.'',
          authors = [''A. Author''], categories = [''cs.AI''],
          url_abstract = ''https://arxiv.org/abs/2301.00001'',
          url_pdf = ''https://arxiv.org/pdf/2301.00001.pdf'',
          date_published = Some ''1 January, 2023'', date_updated = None\<rparr>,
         unidentified_paper,
         \<lparr>id_arxiv = ''2301.00003'', title = ''Third Paper'', abstract = [], authors = [],
          categories = [], url_abstract = ''https://arxiv.org/abs/2301.00003'',
          url_pdf = ''https://arxiv.org/pdf/2301.00003.pdf'',
          date_published = None, date_updated = None\<rparr>],
      page = 1, page_size = 25\<rparr>"

definition sample_single :: Paper where
  "sample_single =
     \<lparr>id_arxiv = ''2301.00001'', title = ''A Paper'', abstract = ''We need More'',
      authors = [''A. Author''], categories = [''cs.AI'', ''cs.LG''],
      url_abstract = ''https://arxiv.org/abs/2301.00001'',
      url_pdf = ''https://arxiv.org/pdf/2301.00001.pdf'',
      date_published = Some ''1 Jan 2023'', date_updated = None\<rparr>"

section \<open>Properties of text normalisation\<close>








lemma join_good_chars:
  "\<forall>v\<in>set ws. good_word v \<Longrightarrow> c \<in> set (str_join '' '' ws) \<Longrightarrow> is_space c \<Longrightarrow> c = CHR '' ''"
  by (induction ws rule: induct_list012) (auto simp: good_word_def)












section \<open>Properties of identifier extraction\<close>

lemma re_plus_Some:
  "re_plus p s = Some (a, r) \<longleftrightarrow>
     a \<noteq> [] \<and> s = a @ r \<and> list_all p a \<and> (r = [] \<or> \<not> p (hd r))"
proof
  assume "re_plus p s = Some (a, r)"
  then have a: "takeWhile p s = a" "dropWhile p s = r" "a \<noteq> []"
    by (auto simp: re_plus_def split: if_splits)
  have "s = a @ r" using takeWhile_dropWhile_id[of p s] a by simp
  moreover have "list_all p a" using a(1) by (auto simp: list_all_iff dest: set_takeWhileD)
  moreover have "r = [] \<or> \<not> p (hd r)" using a(2) hd_dropWhile[of p s] by auto
  ultimately show "a \<noteq> [] \<and> s = a @ r \<and> list_all p a \<and> (r = [] \<or> \<not> p (hd r))"
    using a(3) by simp
next
  assume h: "a \<noteq> [] \<and> s = a @ r \<and> list_all p a \<and> (r = [] \<or> \<not> p (hd r))"
  then have all: "\<And>x. x \<in> set a \<Longrightarrow> p x" by (simp add: list_all_iff)
  have r: "takeWhile p r = []" "dropWhile p r = r" using h by (cases r; simp)+
  have "takeWhile p s = a" "dropWhile p s = r"
    using h all r by (simp_all add: takeWhile_append2 dropWhile_append2)
  then show "re_plus p s = Some (a, r)" using h by (simp add: re_plus_def)
qed

lemma re_lit_Some: "re_lit l s = Some r \<longleftrightarrow> s = l @ r"
  by (auto simp: re_lit_def prefix_def)

lemma dot_not_digit: "\<not> is_digit CHR ''.''"
  by (simp add: is_digit_def)

lemma match_id_Some:
  "match_id s = Some (c, r) \<longleftrightarrow> id_form c \<and> s = c @ r \<and> (r = [] \<or> \<not> is_digit (hd r))"
proof
  assume "match_id s = Some (c, r)"
  then obtain d1 r1 r2 d2 where
    1: "re_plus is_digit s = Some (d1, r1)" and 2: "re_lit ''.'' r1 = Some r2"
    and 3: "re_plus is_digit r2 = Some (d2, r)" and c: "c = d1 @ ''.'' @ d2"
    by (auto simp: match_id_def split: Option.bind_splits prod.splits)
  from 1 2 3 c show "id_form c \<and> s = c @ r \<and> (r = [] \<or> \<not> is_digit (hd r))"
    unfolding re_plus_Some re_lit_Some id_form_def by auto
next
  assume h: "id_form c \<and> s = c @ r \<and> (r = [] \<or> \<not> is_digit (hd r))"
  then obtain d1 d2 where c: "c = d1 @ ''.'' @ d2" and d: "d1 \<noteq> []" "d2 \<noteq> []"
    "list_all is_digit d1" "list_all is_digit d2"
    by (auto simp: id_form_def)
  have 1: "re_plus is_digit s = Some (d1, ''.'' @ d2 @ r)"
    unfolding re_plus_Some using h c d dot_not_digit by simp
  have 2: "re_lit ''.'' (''.'' @ d2 @ r) = Some (d2 @ r)" by (simp add: re_lit_Some)
  have 3: "re_plus is_digit (d2 @ r) = Some (d2, r)"
    unfolding re_plus_Some using h d by simp
  show "match_id s = Some (c, r)"
    using 2 by (simp add: match_id_def 1 3 c)
qed

lemma pattern_url_Some: "pattern_url l t = Some c \<longleftrightarrow> spec_at l t c"
proof -
  have "pattern_url l t = Some c \<longleftrightarrow> (\<exists>r r'. re_lit l t = Some r \<and> match_id r = Some (c, r'))"
    by (auto simp: pattern_url_def split: Option.bind_splits)
  also have "\<dots> \<longleftrightarrow> spec_at l t c"
    unfolding re_lit_Some match_id_Some spec_at_def by auto
  finally show ?thesis .
qed

lemma pattern_url_None: "pattern_url l t = None \<longleftrightarrow> (\<forall>c. \<not> spec_at l t c)"
  using pattern_url_Some[of l t] by (cases "pattern_url l t") auto

lemma all_less_Suc: "(\<forall>k<Suc n. P k) \<longleftrightarrow> P 0 \<and> (\<forall>k<n. P (Suc k))"
  by (metis less_Suc_eq_0_disj Suc_less_eq zero_less_Suc)

lemma re_search_Some:
  "re_search m s = Some c \<longleftrightarrow>
     (\<exists>n\<le>length s. m (drop n s) = Some c \<and> (\<forall>k<n. m (drop k s) = None))"
proof (induction s)
  case Nil
  show ?case by simp
next
  case (Cons x xs)
  show ?case
  proof (cases "m (x # xs)")
    case (Some g)
    have "(\<exists>n\<le>length (x # xs). m (drop n (x # xs)) = Some c \<and> (\<forall>k<n. m (drop k (x # xs)) = None))
          \<longleftrightarrow> g = c"
    proof
      assume "\<exists>n\<le>length (x # xs). m (drop n (x # xs)) = Some c \<and> (\<forall>k<n. m (drop k (x # xs)) = None)"
      then obtain n where n: "m (drop n (x # xs)) = Some c" "\<forall>k<n. m (drop k (x # xs)) = None"
        by blast
      have "n = 0" using n(2) Some by (cases n) auto
      then show "g = c" using n(1) Some by simp
    next
      assume "g = c"
      then have "m (drop 0 (x # xs)) = Some c \<and> (\<forall>k<0. m (drop k (x # xs)) = None)"
        using Some by simp
      then show "\<exists>n\<le>length (x # xs). m (drop n (x # xs)) = Some c \<and> (\<forall>k<n. m (drop k (x # xs)) = None)"
        by blast
    qed
    then show ?thesis using Some by simp
  next
    case None
    have "(\<exists>n\<le>length (x # xs). m (drop n (x # xs)) = Some c \<and> (\<forall>k<n. m (drop k (x # xs)) = None))
          \<longleftrightarrow> (\<exists>n\<le>length xs. m (drop n xs) = Some c \<and> (\<forall>k<n. m (drop k xs) = None))"
      (is "?L \<longleftrightarrow> ?R")
    proof
      assume ?L
      then obtain n where n: "n \<le> length (x # xs)" "m (drop n (x # xs)) = Some c"
        "\<forall>k<n. m (drop k (x # xs)) = None" by blast
      from n(2) None obtain n' where n': "n = Suc n'" by (cases n) auto
      with n have "n' \<le> length xs" "m (drop n' xs) = Some c" "\<forall>k<n'. m (drop k xs) = None"
        by (auto simp: all_less_Suc)
      then show ?R by blast
    next
      assume ?R
      then obtain n where n: "n \<le> length xs" "m (drop n xs) = Some c"
        "\<forall>k<n. m (drop k xs) = None" by blast
      then have "Suc n \<le> length (x # xs)" "m (drop (Suc n) (x # xs)) = Some c"
        "\<forall>k<Suc n. m (drop k (x # xs)) = None"
        using None by (auto simp: all_less_Suc)
      then show ?L by blast
    qed
    then show ?thesis using None Cons.IH by simp
  qed
qed

lemma re_search_None:
  "re_search m s = None \<longleftrightarrow> (\<forall>n\<le>length s. m (drop n s) = None)"
proof (induction s)
  case Nil
  show ?case by simp
next
  case (Cons x xs)
  have "(\<forall>n\<le>length (x # xs). m (drop n (x # xs)) = None)
        \<longleftrightarrow> m (x # xs) = None \<and> (\<forall>n\<le>length xs. m (drop n xs) = None)"
    using all_less_Suc[of "Suc (length xs)" "\<lambda>n. m (drop n (x # xs)) = None"]
    by (simp add: less_Suc_eq_le)
  then show ?case using Cons.IH by (cases "m (x # xs)") auto
qed

lemma search_url_Some: "re_search (pattern_url l) s = Some c \<longleftrightarrow> spec_first l s c"
  unfolding re_search_Some spec_first_def pattern_url_Some pattern_url_None ..

lemma id_form_match: 
  assumes "id_form c"
  shows "\<exists>c' r. match_id (c @ rest) = Some (c', r)"
proof -
  from assms obtain d1 d2 where c: "c = d1 @ ''.'' @ d2" and d: "d1 \<noteq> []" "d2 \<noteq> []"
    "list_all is_digit d1" "list_all is_digit d2"
    by (auto simp: id_form_def)
  have 1: "re_plus is_digit (c @ rest) = Some (d1, ''.'' @ d2 @ rest)"
    unfolding re_plus_Some using c d dot_not_digit by simp
  have 2: "re_lit ''.'' (''.'' @ d2 @ rest) = Some (d2 @ rest)" by (simp add: re_lit_Some)
  have "is_digit (hd (d2 @ rest))" using d by (cases d2) auto
  then have "takeWhile is_digit (d2 @ rest) \<noteq> []" using d(2) by (cases d2) auto
  then have 3: "re_plus is_digit (d2 @ rest) =
     Some (takeWhile is_digit (d2 @ rest), dropWhile is_digit (d2 @ rest))"
    by (simp add: re_plus_def)
  show ?thesis using 2 by (simp add: match_id_def 1 3)
qed

lemma search_url_None: "re_search (pattern_url l) s = None \<longleftrightarrow> \<not> spec_contains l s"
proof
  assume n: "re_search (pattern_url l) s = None"
  show "\<not> spec_contains l s"
  proof
    assume "spec_contains l s"
    then obtain pre c rest where s: "s = pre @ l @ c @ rest" and c: "id_form c"
      by (auto simp: spec_contains_def)
    from id_form_match[OF c, of rest] obtain c' r where "match_id (c @ rest) = Some (c', r)"
      by blast
    then have "pattern_url l (l @ c @ rest) = Some c'"
      by (simp add: pattern_url_def re_lit_def)
    moreover have "drop (length pre) s = l @ c @ rest" using s by simp
    moreover have "length pre \<le> length s" using s by simp
    ultimately show False using n unfolding re_search_None by (metis option.distinct(1))
  qed
next
  assume n: "\<not> spec_contains l s"
  show "re_search (pattern_url l) s = None"
  proof (rule ccontr)
    assume "re_search (pattern_url l) s \<noteq> None"
    then obtain c where "re_search (pattern_url l) s = Some c" by auto
    then obtain k where k: "k \<le> length s" "spec_at l (drop k s) c"
      unfolding search_url_Some spec_first_def by blast
    then obtain r where "drop k s = l @ c @ r" "id_form c" by (auto simp: spec_at_def)
    then have "s = take k s @ l @ c @ r \<and> id_form c"
      using append_take_drop_id[of k s] by simp
    then show False using n unfolding spec_contains_def by blast
  qed
qed

lemma newline_not_digit: "\<not> is_digit (CHR 0x0A)"
  by (simp add: is_digit_def)

lemma pattern_bare_Some: "pattern_bare s = Some c \<longleftrightarrow> spec_bare s c"
proof -
  have "pattern_bare s = Some c \<longleftrightarrow>
        (\<exists>r. match_id s = Some (c, r) \<and> (r = [] \<or> r = [CHR 0x0A]))"
    by (auto simp: pattern_bare_def split: Option.bind_splits if_splits)
  also have "\<dots> \<longleftrightarrow> spec_bare s c"
    unfolding match_id_Some spec_bare_def using newline_not_digit by auto
  finally show ?thesis .
qed


lemma extractPaperId_unfold:
  "extractPaperId s =
     (case re_search (pattern_url ''arxiv.org/abs/'') s of
        Some g \<Rightarrow> Some g
      | None \<Rightarrow>
          (case re_search (pattern_url ''arxiv.org/pdf/'') s of
             Some g \<Rightarrow> Some g
           | None \<Rightarrow> pattern_bare s))"
  by (simp add: extractPaperId_def patterns_def split: option.splits)



section \<open>Equivalence of identifier and URL\<close>

lemma id_form_chars:
  assumes "id_form c" "x \<in> set c"
  shows "is_digit x \<or> x = CHR ''.''"
  using assms by (auto simp: id_form_def list_all_iff)

lemma id_form_not_empty: "id_form c \<Longrightarrow> c \<noteq> []"
  by (auto simp: id_form_def)

lemma id_form_no_url:
  assumes "id_form c" "CHR ''a'' \<in> set l"
  shows "\<not> spec_contains l c"
proof
  assume "spec_contains l c"
  then have "set l \<subseteq> set c" by (auto simp: spec_contains_def)
  with assms(2) have "CHR ''a'' \<in> set c" by auto
  from id_form_chars[OF assms(1) this] show False by (simp add: is_digit_def)
qed

lemma extract_bare:
  assumes "id_form c"
  shows "extractPaperId c = Some c"
proof -
  have 1: "re_search (pattern_url ''arxiv.org/abs/'') c = None"
    unfolding search_url_None by (rule id_form_no_url[OF assms]) simp
  have 2: "re_search (pattern_url ''arxiv.org/pdf/'') c = None"
    unfolding search_url_None by (rule id_form_no_url[OF assms]) simp
  have 3: "pattern_bare c = Some c"
    unfolding pattern_bare_Some spec_bare_def using assms by simp
  show ?thesis by (simp add: extractPaperId_unfold 1 2 3)
qed

lemma extract_abs_url:
  assumes "id_form c"
  shows "extractPaperId (''https://arxiv.org/abs/'' @ c) = Some c"
proof -
  have "spec_at ''arxiv.org/abs/'' (''arxiv.org/abs/'' @ c) c"
    unfolding spec_at_def using assms by simp
  then have m: "pattern_url ''arxiv.org/abs/'' (''arxiv.org/abs/'' @ c) = Some c"
    by (simp only: pattern_url_Some)
  have n: "\<And>x r. x \<noteq> CHR ''a'' \<Longrightarrow> pattern_url ''arxiv.org/abs/'' (x # r) = None"
    by (simp add: pattern_url_def re_lit_def)
  have "re_search (pattern_url ''arxiv.org/abs/'') (''https://'' @ (''arxiv.org/abs/'' @ c)) = Some c"
    using m by (simp add: n)
  then show ?thesis by (simp add: extractPaperId_unfold)
qed

lemma getPaper_same:
  assumes "extractPaperId x = Some c" "extractPaperId y = Some c" "c \<noteq> []"
  shows "getPaper e x lg = getPaper e y lg"
  using assms by (simp add: getPaper_def)

lemma getPaper_log:
  assumes "extractPaperId x = Some c" "c \<noteq> []"
  shows "snd (getPaper e x lg) = lg @ [''https://arxiv.org/abs/'' @ c]"
  using assms by (simp add: getPaper_def client_get_def URL_BASE_def Let_def split: sum.splits)

text \<open>
  Claim C9. For every identifier \<open>c\<close> of the form digits, dot, digits (so for every
  \<open>NNNN.NNNNN\<close>), \<open>getPaper\<close> on \<open>c\<close> and on \<open>https://arxiv.org/abs/c\<close> resolve the
  same identifier \<open>c\<close>, request the same locator \<open>https://arxiv.org/abs/c\<close> and nothing
  else, and return the same result.
\<close>

theorem getPaper_id_url_equivalent:
  assumes "id_form c"
  shows "extractPaperId c = Some c \<and>
         extractPaperId (''https://arxiv.org/abs/'' @ c) = Some c \<and>
         snd (getPaper e c lg) = lg @ [''https://arxiv.org/abs/'' @ c] \<and>
         snd (getPaper e (''https://arxiv.org/abs/'' @ c) lg) = lg @ [''https://arxiv.org/abs/'' @ c] \<and>
         getPaper e (''https://arxiv.org/abs/'' @ c) lg = getPaper e c lg"
  using extract_bare[OF assms] extract_abs_url[OF assms] id_form_not_empty[OF assms]
    getPaper_same[of "''https://arxiv.org/abs/'' @ c" c c e lg]
    getPaper_log[of c c e lg] getPaper_log[of "''https://arxiv.org/abs/'' @ c" c e lg]
  by simp

lemma id_2301: "id_form ''2301.00001''"
  unfolding id_form_def
  by (rule exI[of _ "''2301''"], rule exI[of _ "''00001''"]) (simp add: is_digit_def)

theorem getPaper_id_url_equivalent_witness:
  "id_form ''2301.00001'' \<and>
   extractPaperId ''2301.00001'' = Some ''2301.00001'' \<and>
   extractPaperId ''https://arxiv.org/abs/2301.00001'' = Some ''2301.00001'' \<and>
   snd (getPaper env0 ''2301.00001'' []) = [''https://arxiv.org/abs/2301.00001''] \<and>
   snd (getPaper env0 ''https://arxiv.org/abs/2301.00001'' []) = [''https://arxiv.org/abs/2301.00001''] \<and>
   getPaper env0 ''https://arxiv.org/abs/2301.00001'' [] = getPaper env0 ''2301.00001'' []"
  using getPaper_id_url_equivalent[OF id_2301, of env0 "[]"] id_2301 by simp

section \<open>Properties of the category list\<close>

lemma category_list_value:
  "category_list ARXIV_CATEGORIES =
     [\<lparr>code = ''cs.AI'', name = ''Artificial Intelligence'', group = ''Computer Science''\<rparr>,
      \<lparr>code = ''cs.CL'', name = ''Computation and Language'', group = ''Computer Science''\<rparr>,
      \<lparr>code = ''cs.CR'', name = ''Cryptography and Security'', group = ''Computer Science''\<rparr>,
      \<lparr>code = ''cs.CV'', name = ''Computer Vision and Pattern Recognition'', group = ''Computer Science''\<rparr>,
      \<lparr>code = ''cs.DB'', name = ''Databases'', group = ''Computer Science''\<rparr>,
      \<lparr>code = ''cs.DC'', name = ''Distributed, Parallel, and Cluster Computing'', group = ''Computer Science''\<rparr>,
      \<lparr>code = ''cs.DS'', name = ''Data Structures and Algorithms'', group = ''Computer Science''\<rparr>,
      \<lparr>code = ''cs.HC'', name = ''Human-Computer Interaction'', group = ''Computer Science''\<rparr>,
      \<lparr>code = ''cs.IR'', name = ''Information Retrieval'', group = ''Computer Science''\<rparr>,
      \<lparr>code = ''cs.IT'', name = ''Information Theory'', group = ''Computer Science''\<rparr>,
      \<lparr>code = ''cs.LG'', name = ''Machine Learning'', group = ''Computer Science''\<rparr>,
      \<lparr>code = ''cs.MA'', name = ''Multiagent Systems'', group = ''Computer Science''\<rparr>,
      \<lparr>code = ''cs.NE'', name = ''Neural and Evolutionary Computing'', group = ''Computer Science''\<rparr>,
      \<lparr>code = ''cs.PL'', name = ''Programming Languages'', group = ''Computer Science''\<rparr>,
      \<lparr>code = ''cs.RO'', name = ''Robotics'', group = ''Computer Science''\<rparr>,
      \<lparr>code = ''cs.SE'', name = ''Software Engineering'', group = ''Computer Science''\<rparr>,
      \<lparr>code = ''eess.AS'', name = ''Audio and Speech Processing'', group = ''Electrical Engineering''\<rparr>,
      \<lparr>code = ''eess.IV'', name = ''Image and Video Processing'', group = ''Electrical Engineering''\<rparr>,
      \<lparr>code = ''eess.SP'', name = ''Signal Processing'', group = ''Electrical Engineering''\<rparr>,
      \<lparr>code = ''math.NA'', name = ''Numerical Analysis'', group = ''Mathematics''\<rparr>,
      \<lparr>code = ''math.OC'', name = ''Optimization and Control'', group = ''Mathematics''\<rparr>,
      \<lparr>code = ''math.PR'', name = ''Probability'', group = ''Mathematics''\<rparr>,
      \<lparr>code = ''math.ST'', name = ''Statistics Theory'', group = ''Mathematics''\<rparr>,
      \<lparr>code = ''cond-mat'', name = ''Condensed Matter'', group = ''Physics''\<rparr>,
      \<lparr>code = ''hep-th'', name = ''High Energy Physics - Theory'', group = ''Physics''\<rparr>,
      \<lparr>code = ''quant-ph'', name = ''Quantum Physics'', group = ''Physics''\<rparr>,
      \<lparr>code = ''q-bio.NC'', name = ''Neurons and Cognition'', group = ''Quantitative Biology''\<rparr>,
      \<lparr>code = ''q-bio.QM'', name = ''Quantitative Methods'', group = ''Quantitative Biology''\<rparr>,
      \<lparr>code = ''q-fin.CP'', name = ''Computational Finance'', group = ''Quantitative Finance''\<rparr>,
      \<lparr>code = ''q-fin.ST'', name = ''Statistical Finance'', group = ''Quantitative Finance''\<rparr>,
      \<lparr>code = ''stat.ME'', name = ''Methodology'', group = ''Statistics''\<rparr>,
      \<lparr>code = ''stat.ML'', name = ''Machine Learning (Statistics)'', group = ''Statistics''\<rparr>,
      \<lparr>code = ''stat.TH'', name = ''Statistics Theory'', group = ''Statistics''\<rparr>]"
  by code_simp

lemma category_list_sorted: "sorted (map (\<lambda>x. (group x, code x)) (category_list table))"
  unfolding category_list_def by (rule sorted_sort_key)

lemma category_list_set:
  "set (category_list table) =
     (\<lambda>(code', name'). \<lparr>code = code', name = name', group = category_group code'\<rparr>) ` set table"
  by (simp add: category_list_def)

lemma category_list_length: "length (category_list table) = length table"
  by (simp add: category_list_def)

lemma category_group_prefix:
  "(prefix ''cs.'' c \<longrightarrow> category_group c = ''Computer Science'') \<and>
   (prefix ''stat.'' c \<longrightarrow> category_group c = ''Statistics'') \<and>
   (prefix ''math.'' c \<longrightarrow> category_group c = ''Mathematics'') \<and>
   (prefix ''eess.'' c \<longrightarrow> category_group c = ''Electrical Engineering'') \<and>
   (prefix ''q-bio.'' c \<longrightarrow> category_group c = ''Quantitative Biology'') \<and>
   (prefix ''q-fin.'' c \<longrightarrow> category_group c = ''Quantitative Finance'') \<and>
   (\<not> prefix ''cs.'' c \<and> \<not> prefix ''stat.'' c \<and> \<not> prefix ''math.'' c \<and>
    \<not> prefix ''eess.'' c \<and> \<not> prefix ''q-bio.'' c \<and> \<not> prefix ''q-fin.'' c
      \<longrightarrow> category_group c = ''Physics'')"
  by (auto simp: category_group_def prefix_def)

lemma listCategories_first: "fst (listCategories None) = category_list ARXIV_CATEGORIES"
  by (simp add: listCategories_def)

lemma listCategories_again:
  "fst (listCategories (snd (listCategories cache))) = fst (listCategories cache)"
  by (cases cache) (simp_all add: listCategories_def)

text \<open>
  Claim C8. The first call of \<open>listCategories\<close> returns one record for every entry of the
  built-in table, with the group that the prefix of the code selects (\<open>Physics\<close> when no
  prefix applies), sorted by the pair of group and code; a repeated call returns what the
  call before it returned.
\<close>

theorem listCategories_sorted_stable:
  "set (fst (listCategories None)) =
     (\<lambda>(code', name'). \<lparr>code = code', name = name', group = category_group code'\<rparr>) `
       set ARXIV_CATEGORIES \<and>
   length (fst (listCategories None)) = length ARXIV_CATEGORIES \<and>
   sorted (map (\<lambda>x. (group x, code x)) (fst (listCategories None))) \<and>
   fst (listCategories (snd (listCategories cache))) = fst (listCategories cache) \<and>
   (prefix ''cs.'' c \<longrightarrow> category_group c = ''Computer Science'') \<and>
   (prefix ''stat.'' c \<longrightarrow> category_group c = ''Statistics'') \<and>
   (prefix ''math.'' c \<longrightarrow> category_group c = ''Mathematics'') \<and>
   (prefix ''eess.'' c \<longrightarrow> category_group c = ''Electrical Engineering'') \<and>
   (prefix ''q-bio.'' c \<longrightarrow> category_group c = ''Quantitative Biology'') \<and>
   (prefix ''q-fin.'' c \<longrightarrow> category_group c = ''Quantitative Finance'') \<and>
   (\<not> prefix ''cs.'' c \<and> \<not> prefix ''stat.'' c \<and> \<not> prefix ''math.'' c \<and>
    \<not> prefix ''eess.'' c \<and> \<not> prefix ''q-bio.'' c \<and> \<not> prefix ''q-fin.'' c
      \<longrightarrow> category_group c = ''Physics'')"
  using category_group_prefix[of c]
  by (simp only: listCategories_first listCategories_again category_list_set
        category_list_length category_list_sorted simp_thms)

theorem listCategories_sorted_stable_witness:
  "\<not> prefix ''cs.'' ''quant-ph'' \<and> \<not> prefix ''stat.'' ''quant-ph'' \<and>
   \<not> prefix ''math.'' ''quant-ph'' \<and> \<not> prefix ''eess.'' ''quant-ph'' \<and>
   \<not> prefix ''q-bio.'' ''quant-ph'' \<and> \<not> prefix ''q-fin.'' ''quant-ph'' \<and>
   category_group ''quant-ph'' = ''Physics'' \<and>
   length (fst (listCategories None)) = 33 \<and>
   fst (listCategories (snd (listCategories None))) = fst (listCategories None)"
  using listCategories_sorted_stable[of None "''quant-ph''"]
  by (simp add: ARXIV_CATEGORIES_def)

section \<open>Sample runs\<close>

lemma getRecent_sample:
  "getRecent env1 ''xx.YY'' 10 [] =
     (Inr (Recent_reply sample_listing), [''https://arxiv.org/list/xx.YY/recent?skip=0&show=10''])"
  by code_simp

lemma parseSearchResults_sample:
  "parseSearchResults (soup_search env1) [] ''test'' 1 25 = Inr sample_result"
  by code_simp

lemma getPaper_sample:
  "getPaper env1 ''2301.00001'' [] =
     (Inr (Paper_reply sample_single), [''https://arxiv.org/abs/2301.00001''])"
  by code_simp

section \<open>The recent listing\<close>

lemma getRecent_reply:
  assumes "getRecent e cat count0 lg = (Inr (Recent_reply r), lg')"
  shows "\<exists>text. http_get e True (''https://arxiv.org/list/'' @ cat @ ''/recent?skip=0&show='' @
                     str_int (min count0 50)) = Inr text \<and>
                r = \<lparr>recent_category = cat,
                      recent_category_name = dict_get ARXIV_CATEGORIES cat cat,
                      recent_count = int (length (recent_loop e (soup_listing e text))),
                      recent_papers = recent_loop e (soup_listing e text)\<rparr>"
  using assms
  by (auto simp: getRecent_def client_get_def URL_BASE_def Let_def split: sum.splits)

lemma link_search:
  "re_search (pattern_url ''/abs/'') href = Some g \<Longrightarrow> g \<noteq> [] \<and> spec_contains ''/abs/'' href"
proof -
  assume a: "re_search (pattern_url ''/abs/'') href = Some g"
  then have "spec_first ''/abs/'' href g" by (simp only: search_url_Some)
  then have "id_form g" by (auto simp: spec_first_def spec_at_def)
  then have "g \<noteq> []" by (rule id_form_not_empty)
  moreover have "spec_contains ''/abs/'' href"
    using a search_url_None[of "''/abs/''" href] by auto
  ultimately show ?thesis by simp
qed

lemma recent_paper_Some:
  "(\<exists>p. recent_paper e x y = Some p) \<longleftrightarrow> has_identifier x"
proof
  assume "\<exists>p. recent_paper e x y = Some p"
  then obtain href g where "id_link x = Some href" "re_search (pattern_url ''/abs/'') href = Some g"
    by (auto simp: recent_paper_def Let_def split: option.splits if_splits)
  then show "has_identifier x" using link_search[of href g] by (auto simp: has_identifier_def)
next
  assume "has_identifier x"
  then obtain href where h: "id_link x = Some href" "spec_contains ''/abs/'' href"
    by (auto simp: has_identifier_def)
  then have "re_search (pattern_url ''/abs/'') href \<noteq> None" by (simp only: search_url_None) simp
  then obtain g where g: "re_search (pattern_url ''/abs/'') href = Some g" by auto
  then have "g \<noteq> []" using link_search by blast
  then show "\<exists>p. recent_paper e x y = Some p"
    using h(1) g by (simp add: recent_paper_def Let_def)
qed

lemma recent_paper_link:
  assumes "recent_paper e x y = Some p"
  shows "\<exists>href. id_link x = Some href \<and> spec_first ''/abs/'' href (id_arxiv p)"
proof -
  from assms obtain href g where h: "id_link x = Some href"
    "re_search (pattern_url ''/abs/'') href = Some g" "id_arxiv p = g"
    by (auto simp: recent_paper_def Let_def split: option.splits if_splits)
  then show ?thesis by (simp add: search_url_Some[symmetric])
qed

lemma adjacent_pairs_step:
  "adjacent_pairs (x # y # rest) =
     (if tag_name x = DT \<and> tag_name y = DD then (x, y) # adjacent_pairs rest
      else adjacent_pairs (y # rest))"
proof (cases rest)
  case Nil
  then show ?thesis by (simp add: adjacent_pairs_def)
next
  case (Cons z zs)
  then show ?thesis by (auto simp: adjacent_pairs_def)
qed

lemma recent_loop_pairs:
  "recent_loop e es = List.map_filter (\<lambda>(x, y). recent_paper e x y) (adjacent_pairs es)"
proof (induction e es rule: recent_loop.induct)
  case (1 e x y rest)
  then show ?case
    by (simp only: recent_loop.simps adjacent_pairs_step)
       (auto simp: map_filter_simps split: option.splits)
next
  case (2 e x)
  show ?case by (simp add: adjacent_pairs_def map_filter_simps)
next
  case (3 e)
  show ?case by (simp add: adjacent_pairs_def map_filter_simps)
qed

lemma recent_loop_length:
  "length (recent_loop e es) = length (filter (\<lambda>(x, y). has_identifier x) (adjacent_pairs es))"
proof -
  have "(\<lambda>p. (case p of (x, y) \<Rightarrow> recent_paper e x y) \<noteq> None) = (\<lambda>(x, y). has_identifier x)"
    using recent_paper_Some[of e] by (auto simp: fun_eq_iff)
  then show ?thesis
    by (simp add: recent_loop_pairs map_filter_def)
qed

lemma recent_loop_link:
  assumes "p \<in> set (recent_loop e es)"
  shows "\<exists>x y href. (x, y) \<in> set (adjacent_pairs es) \<and> id_link x = Some href \<and>
           spec_first ''/abs/'' href (id_arxiv p)"
proof -
  from assms obtain x y where "(x, y) \<in> set (adjacent_pairs es)" "recent_paper e x y = Some p"
    unfolding recent_loop_pairs map_filter_def by auto
  then show ?thesis using recent_paper_link by blast
qed

text \<open>
  Claim C10. In every result of \<open>getRecent\<close> the field \<open>count\<close> is the length of the list
  \<open>papers\<close>, whatever count was asked for: it is the number of term/definition pairs of
  the fetched listing whose term links to an abstract page with an identifier, and every
  paper carries the identifier of such a link. The field \<open>category_name\<close> is the name of
  the category in the built-in table, and the category code itself when the table has none.
\<close>

theorem getRecent_count:
  assumes "getRecent e cat count0 lg = (Inr (Recent_reply r), lg')"
  shows "recent_count r = int (length (recent_papers r)) \<and>
         (\<exists>text. http_get e True (''https://arxiv.org/list/'' @ cat @ ''/recent?skip=0&show='' @
                     str_int (min count0 50)) = Inr text \<and>
                 recent_papers r = recent_loop e (soup_listing e text) \<and>
                 recent_count r =
                   int (length (filter (\<lambda>(x, y). has_identifier x)
                                  (adjacent_pairs (soup_listing e text)))) \<and>
                 (\<forall>p\<in>set (recent_papers r).
                    \<exists>x y href. (x, y) \<in> set (adjacent_pairs (soup_listing e text)) \<and>
                               id_link x = Some href \<and>
                               spec_first ''/abs/'' href (id_arxiv p))) \<and>
         recent_category_name r =
           (case map_of ARXIV_CATEGORIES cat of Some n \<Rightarrow> n | None \<Rightarrow> cat)"
proof -
  from getRecent_reply[OF assms] obtain body where
    b: "http_get e True (''https://arxiv.org/list/'' @ cat @ ''/recent?skip=0&show='' @
                     str_int (min count0 50)) = Inr body"
    and r: "r = \<lparr>recent_category = cat,
                 recent_category_name = dict_get ARXIV_CATEGORIES cat cat,
                 recent_count = int (length (recent_loop e (soup_listing e body))),
                 recent_papers = recent_loop e (soup_listing e body)\<rparr>"
    by blast
  have 1: "recent_count r = int (length (recent_papers r))" by (simp add: r)
  have 2: "recent_papers r = recent_loop e (soup_listing e body)" by (simp add: r)
  have 3: "recent_count r =
             int (length (filter (\<lambda>(x, y). has_identifier x)
                            (adjacent_pairs (soup_listing e body))))"
    by (simp add: r recent_loop_length)
  have 4: "\<forall>p\<in>set (recent_papers r).
             \<exists>x y href. (x, y) \<in> set (adjacent_pairs (soup_listing e body)) \<and>
                        id_link x = Some href \<and> spec_first ''/abs/'' href (id_arxiv p)"
    unfolding 2 using recent_loop_link by blast
  have 5: "recent_category_name r =
           (case map_of ARXIV_CATEGORIES cat of Some n \<Rightarrow> n | None \<Rightarrow> cat)"
    by (simp add: r dict_get_def)
  show ?thesis using b 1 2 3 4 5 by blast
qed

theorem getRecent_count_witness:
  "getRecent env1 ''xx.YY'' 10 [] =
     (Inr (Recent_reply sample_listing), [''https://arxiv.org/list/xx.YY/recent?skip=0&show=10'']) \<and>
   recent_count sample_listing = int (length (recent_papers sample_listing)) \<and>
   recent_count sample_listing < 10 \<and>
   length (adjacent_pairs sample_entries) = 2 \<and>
   recent_count sample_listing =
     int (length (filter (\<lambda>(x, y). has_identifier x) (adjacent_pairs sample_entries))) \<and>
   map_of ARXIV_CATEGORIES ''xx.YY'' = None \<and>
   recent_category_name sample_listing = ''xx.YY''"
proof -
  have n: "map_of ARXIV_CATEGORIES ''xx.YY'' = None" by code_simp
  have c: "recent_count sample_listing = int (length (recent_papers sample_listing))"
    using getRecent_count[OF getRecent_sample] by (rule conjunct1)
  have l: "\<And>body. soup_listing env1 body = sample_entries" by (simp add: env1_def)
  have d: "recent_count sample_listing =
     int (length (filter (\<lambda>(x, y). has_identifier x) (adjacent_pairs sample_entries)))"
    using getRecent_count[OF getRecent_sample] unfolding l by blast
  have a: "length (adjacent_pairs sample_entries) = 2"
    by (simp add: adjacent_pairs_def sample_entries_def)
  have v: "recent_count sample_listing < 10" "recent_category_name sample_listing = ''xx.YY''"
    by (simp_all add: sample_listing_def)
  show ?thesis
    by (intro conjI) (rule getRecent_sample c v a d n)+
qed

section \<open>The invariant of papers\<close>

lemma parse_block_inv: "parse_block b = Inr p \<Longrightarrow> paper_inv p"
  by (auto simp: parse_block_def Let_def paper_inv_def split: option.splits)

lemma parse_items_inv: "p \<in> set (parse_items bs) \<Longrightarrow> paper_inv p"
  by (induction bs) (auto split: sum.splits dest: parse_block_inv)

lemma parseSearchResults_papers:
  "parseSearchResults soup html q pg ps = Inr sr \<Longrightarrow> papers sr = parse_items (items (soup html))"
  by (auto simp: parseSearchResults_def split: sum.splits)

lemma recent_paper_id: "recent_paper e x y = Some p \<Longrightarrow> id_arxiv p \<noteq> []"
  by (auto simp: recent_paper_def Let_def split: if_splits)

lemma recent_loop_id: "p \<in> set (recent_loop e es) \<Longrightarrow> id_arxiv p \<noteq> []"
  by (induction e es rule: recent_loop.induct)
     (auto split: if_splits option.splits dest: recent_paper_id recent_paper_id[OF sym])

lemma getPaper_id:
  "getPaper e x lg = (Inr (Paper_reply p), lg') \<Longrightarrow> id_arxiv p \<noteq> []"
  by (auto simp: getPaper_def client_get_def Let_def split: option.splits if_splits sum.splits)

text \<open>
  Claim C5. Every paper produced by an extractor (of a search-results page, of a single
  paper, of a recent listing) satisfies the invariant: when its identifier is empty, its
  PDF locator is empty.
\<close>

theorem papers_invariant:
  "(parseSearchResults soup html q pg ps = Inr sr \<longrightarrow> (\<forall>p\<in>set (papers sr). paper_inv p)) \<and>
   (getPaper e x lg = (Inr (Paper_reply p1), lg1) \<longrightarrow> paper_inv p1) \<and>
   (getRecent e cat n lg = (Inr (Recent_reply r), lg2) \<longrightarrow>
      (\<forall>p\<in>set (recent_papers r). paper_inv p))"
proof (intro conjI impI ballI)
  fix p assume "parseSearchResults soup html q pg ps = Inr sr" "p \<in> set (papers sr)"
  then show "paper_inv p"
    using parseSearchResults_papers[of soup html q pg ps sr] parse_items_inv by simp
next
  assume "getPaper e x lg = (Inr (Paper_reply p1), lg1)"
  from getPaper_id[OF this] show "paper_inv p1" by (simp add: paper_inv_def)
next
  fix p assume h: "getRecent e cat n lg = (Inr (Recent_reply r), lg2)" "p \<in> set (recent_papers r)"
  from getRecent_reply[OF h(1)] h(2) obtain body where "p \<in> set (recent_loop e (soup_listing e body))"
    by auto
  from recent_loop_id[OF this] show "paper_inv p" by (simp add: paper_inv_def)
qed

theorem papers_invariant_witness:
  "parseSearchResults (soup_search env1) [] ''test'' 1 25 = Inr sample_result \<and>
   unidentified_paper \<in> set (papers sample_result) \<and>
   id_arxiv unidentified_paper = [] \<and> url_pdf unidentified_paper = [] \<and>
   getPaper env1 ''2301.00001'' [] =
     (Inr (Paper_reply sample_single), [''https://arxiv.org/abs/2301.00001'']) \<and>
   paper_inv sample_single \<and>
   getRecent env1 ''xx.YY'' 10 [] =
     (Inr (Recent_reply sample_listing), [''https://arxiv.org/list/xx.YY/recent?skip=0&show=10'']) \<and>
   sample_paper \<in> set (recent_papers sample_listing) \<and> paper_inv sample_paper"
proof -
  note inv = papers_invariant[of "soup_search env1" "[]" "''test''" 1 25 sample_result
      env1 "''2301.00001''" "[]" sample_single "[''https://arxiv.org/abs/2301.00001'']"
      "''xx.YY''" 10 sample_listing "[''https://arxiv.org/list/xx.YY/recent?skip=0&show=10'']"]
  have m: "unidentified_paper \<in> set (papers sample_result)" by (simp add: sample_result_def)
  have m': "sample_paper \<in> set (recent_papers sample_listing)" by (simp add: sample_listing_def)
  have "paper_inv unidentified_paper" "paper_inv sample_single" "paper_inv sample_paper"
    using inv parseSearchResults_sample getPaper_sample getRecent_sample m m' by blast+
  moreover have "id_arxiv unidentified_paper = []" by (simp add: unidentified_paper_def)
  ultimately show ?thesis
    using parseSearchResults_sample getPaper_sample getRecent_sample m m'
    by (simp add: paper_inv_def)
qed

section \<open>Requests of the adapters\<close>

lemma snd_reply:
  "snd (case c of
          (Inl err, lg') \<Rightarrow> (Inl err, lg')
        | (Inr body, lg') \<Rightarrow>
            (case f body of Inl err \<Rightarrow> (Inl err, lg') | Inr result \<Rightarrow> (Inr (g result), lg')))
   = snd c"
  by (auto split: prod.splits sum.splits)

lemma snd_reply_direct:
  "snd (case c of (Inl err, lg') \<Rightarrow> (Inl err, lg') | (Inr body, lg') \<Rightarrow> (Inr (g body), lg'))
   = snd c"
  by (auto split: prod.splits sum.splits)

lemma fst_reply:
  "fst (case c of
          (Inl err, lg') \<Rightarrow> (Inl err, lg')
        | (Inr body, lg') \<Rightarrow>
            (case f body of Inl err \<Rightarrow> (Inl err, lg') | Inr result \<Rightarrow> (Inr (g result), lg')))
   = (case fst c of
        Inl err \<Rightarrow> Inl err
      | Inr body \<Rightarrow> (case f body of Inl err \<Rightarrow> Inl err | Inr result \<Rightarrow> Inr (g result)))"
  by (auto split: prod.splits sum.splits)

lemma case_reply_Inr:
  assumes "(case x of
              Inl err \<Rightarrow> Inl err
            | Inr body \<Rightarrow> (case f body of Inl err \<Rightarrow> Inl err | Inr result \<Rightarrow> Inr (g result)))
           = Inr r"
  shows "\<exists>body result. x = Inr body \<and> f body = Inr result \<and> r = g result"
  using assms by (auto split: sum.splits)

lemma fst_client_get: "fst (client_get e follow url lg) = http_get e follow url"
  by (simp add: client_get_def)

lemma parseSearchResults_fields:
  assumes "parseSearchResults soup html q pg ps = Inr sr"
  shows "query sr = q \<and> page sr = pg \<and> page_size sr = ps \<and>
         papers sr = parse_items (items (soup html)) \<and>
         parse_total (total_text (soup html)) = Inr (total_results sr)"
  using assms by (auto simp: parseSearchResults_def split: sum.splits)

lemma snd_client_get: "snd (client_get e follow url lg) = lg @ [url]"
  by (simp add: client_get_def)

lemma search_snd:
  "snd (search e q cat au sb pg ps lg) =
     lg @ [URL_BASE @ ''/search/?query='' @
           quote_plus
             (if length ((if q \<noteq> [] then [q] else []) @ term_of ''au:'' au @ term_of ''cat:'' cat) > 1
              then str_join '' AND ''
                     ((if q \<noteq> [] then [q] else []) @ term_of ''au:'' au @ term_of ''cat:'' cat)
              else (case (if q \<noteq> [] then [q] else []) @ term_of ''au:'' au @ term_of ''cat:'' cat of
                      t # _ \<Rightarrow> t | [] \<Rightarrow> [])) @
           ''&searchtype=all&abstracts=show'' @
           ''&order='' @ dict_get SORT_OPTIONS sb [] @ ''&size='' @ str_int (min ps 50) @
           ''&start='' @ str_int ((pg - 1) * min ps 50)]"
  unfolding search_def Let_def snd_reply snd_client_get
  by (rule refl)

lemma search_log:
  "\<exists>qs. snd (search e q cat au sb pg ps lg) =
     lg @ [''https://arxiv.org/search/?query='' @ qs @ ''&size='' @ str_int (min ps 50) @
           ''&start='' @ str_int ((pg - 1) * min ps 50)]"
  unfolding search_snd URL_BASE_def
  by (rule exI[of _ "_ @ ''&searchtype=all&abstracts=show'' @ ''&order='' @ dict_get SORT_OPTIONS sb []"])
     (simp only: append_assoc append.simps)

lemma term_of_empty: "term_of f x = [] \<longleftrightarrow> \<not> truthy x"
  by (auto simp: term_of_def truthy_def split: option.splits)

lemma query_parts_empty:
  "term_of ''ti:'' ti @ term_of ''abs:'' ab @ term_of ''au:'' au @
   term_of ''cat:'' cat @ term_of ''id:'' i = [] \<longleftrightarrow>
   \<not> truthy ti \<and> \<not> truthy ab \<and> \<not> truthy au \<and> \<not> truthy cat \<and> \<not> truthy i"
  by (simp only: append_is_Nil_conv term_of_empty)

lemma date_suffix:
  "(case dt of
      Some d \<Rightarrow>
        (if d \<noteq> [] then
           (case df of Some d' \<Rightarrow> (if d' \<noteq> [] then u @ a @ d' else u) | None \<Rightarrow> u) @ b @ d
         else (case df of Some d' \<Rightarrow> (if d' \<noteq> [] then u @ a @ d' else u) | None \<Rightarrow> u))
    | None \<Rightarrow> (case df of Some d' \<Rightarrow> (if d' \<noteq> [] then u @ a @ d' else u) | None \<Rightarrow> u))
   = u @ (if truthy df then a @ the df else []) @ (if truthy dt then b @ the dt else [])"
  by (auto simp: truthy_def split: option.splits)

lemma searchAdvanced_empty:
  assumes "\<not> truthy ti \<and> \<not> truthy ab \<and> \<not> truthy au \<and> \<not> truthy cat \<and> \<not> truthy i"
  shows "searchAdvanced e ti ab au cat i df dt sb pg ps lg =
           (Inr (Error_reply ''At least one search field is required''), lg)"
  unfolding searchAdvanced_def Let_def
  by (simp only: query_parts_empty[THEN iffD2, OF assms] simp_thms if_True)

lemma searchAdvanced_snd:
  assumes "truthy ti \<or> truthy ab \<or> truthy au \<or> truthy cat \<or> truthy i"
  shows "snd (searchAdvanced e ti ab au cat i df dt sb pg ps lg) =
     lg @ [(URL_BASE @ ''/search/advanced?terms-0-operator=AND'' @
            ''&terms-0-term='' @
            quote_plus (str_join '' AND ''
              (term_of ''ti:'' ti @ term_of ''abs:'' ab @ term_of ''au:'' au @
               term_of ''cat:'' cat @ term_of ''id:'' i)) @
            ''&terms-0-field=all'' @
            ''&classification-physics_archives=all'' @
            ''&classification-include_cross_list=include'' @
            ''&abstracts=show&size='' @ str_int (min ps 50) @
            ''&start='' @ str_int ((pg - 1) * min ps 50) @
            ''&order='' @ dict_get SORT_OPTIONS sb []) @
           (if truthy df then ''&date-from_date='' @ the df else []) @
           (if truthy dt then ''&date-to_date='' @ the dt else [])]"
proof -
  have ne: "term_of ''ti:'' ti @ term_of ''abs:'' ab @ term_of ''au:'' au @
            term_of ''cat:'' cat @ term_of ''id:'' i \<noteq> []"
    using assms by (simp only: query_parts_empty) blast
  show ?thesis
    unfolding searchAdvanced_def Let_def
    by (simp only: ne if_False snd_reply snd_client_get date_suffix)
qed


lemma search_page_size:
  assumes "search e q cat au sb pg ps lg = (Inr (Search_reply sr), lg')"
  shows "page_size sr = min ps 50"
proof -
  have "fst (search e q cat au sb pg ps lg) = Inr (Search_reply sr)" using assms by simp
  then obtain body where "parseSearchResults (soup_search e) body
      (if length ((if q \<noteq> [] then [q] else []) @ term_of ''au:'' au @ term_of ''cat:'' cat) > 1
       then str_join '' AND ''
              ((if q \<noteq> [] then [q] else []) @ term_of ''au:'' au @ term_of ''cat:'' cat)
       else (case (if q \<noteq> [] then [q] else []) @ term_of ''au:'' au @ term_of ''cat:'' cat of
               t # _ \<Rightarrow> t | [] \<Rightarrow> []))
      pg (min ps 50) = Inr sr"
    unfolding search_def Let_def fst_reply fst_client_get
    by (auto split: sum.splits)
  then show ?thesis by (simp only: parseSearchResults_fields)
qed

lemma searchAdvanced_fetch:
  assumes "truthy ti \<or> truthy ab \<or> truthy au \<or> truthy cat \<or> truthy i"
  shows "\<exists>url. snd (searchAdvanced e ti ab au cat i df dt sb pg ps lg) = lg @ [url] \<and>
           prefix ''https://arxiv.org/search/advanced?'' url \<and>
           fst (searchAdvanced e ti ab au cat i df dt sb pg ps lg) =
             (case http_get e False url of
                Inl err \<Rightarrow> Inl err
              | Inr body \<Rightarrow>
                  (case parseSearchResults (soup_search e) body
                          (str_join '' AND ''
                             (term_of ''ti:'' ti @ term_of ''abs:'' ab @ term_of ''au:'' au @
                              term_of ''cat:'' cat @ term_of ''id:'' i))
                          pg (min ps 50) of
                     Inl err \<Rightarrow> Inl err
                   | Inr result \<Rightarrow> Inr (Search_reply result)))"
proof -
  have ne: "term_of ''ti:'' ti @ term_of ''abs:'' ab @ term_of ''au:'' au @
            term_of ''cat:'' cat @ term_of ''id:'' i \<noteq> []"
    using assms by (simp only: query_parts_empty) blast
  show ?thesis
    unfolding searchAdvanced_def Let_def
    apply (simp only: ne if_False snd_reply snd_client_get fst_reply fst_client_get date_suffix)
    apply (intro exI conjI)
      apply (rule refl)
     apply (simp only: URL_BASE_def append_assoc append.simps Cons_prefix_Cons Nil_prefix simp_thms)
    apply (rule refl)
    done
qed

lemma searchAdvanced_page_size:
  assumes "searchAdvanced e ti ab au cat i df dt sb pg ps lg = (Inr (Search_reply sr), lg')"
  shows "page_size sr = min ps 50"
proof (cases "truthy ti \<or> truthy ab \<or> truthy au \<or> truthy cat \<or> truthy i")
  case False
  then have "searchAdvanced e ti ab au cat i df dt sb pg ps lg =
           (Inr (Error_reply ''At least one search field is required''), lg)"
    by (intro searchAdvanced_empty) blast
  with assms show ?thesis by simp
next
  case True
  have f: "fst (searchAdvanced e ti ab au cat i df dt sb pg ps lg) = Inr (Search_reply sr)"
    using assms by simp
  from searchAdvanced_fetch[OF True, of e df dt sb pg ps lg] obtain url where
    "(case http_get e False url of
        Inl err \<Rightarrow> Inl err
      | Inr body \<Rightarrow>
          (case parseSearchResults (soup_search e) body
                  (str_join '' AND ''
                     (term_of ''ti:'' ti @ term_of ''abs:'' ab @ term_of ''au:'' au @
                      term_of ''cat:'' cat @ term_of ''id:'' i))
                  pg (min ps 50) of
             Inl err \<Rightarrow> Inl err
           | Inr result \<Rightarrow> Inr (Search_reply result))) = Inr (Search_reply sr)"
    unfolding f by metis
  from case_reply_Inr[OF this] obtain body where
    "parseSearchResults (soup_search e) body
        (str_join '' AND ''
           (term_of ''ti:'' ti @ term_of ''abs:'' ab @ term_of ''au:'' au @
            term_of ''cat:'' cat @ term_of ''id:'' i)) pg (min ps 50) = Inr sr"
    by auto
  then show ?thesis by (simp only: parseSearchResults_fields)
qed

lemma getRecent_log:
  "snd (getRecent e cat n lg) =
     lg @ [''https://arxiv.org/list/'' @ cat @ ''/recent?skip=0&show='' @ str_int (min n 50)]"
  unfolding getRecent_def Let_def snd_reply_direct snd_client_get URL_BASE_def
  by (simp only: append_assoc append.simps)


lemma search_sample:
  "search env1 ''test'' None None ''relevance'' 1 1000 [] =
     (Inr (Search_reply (sample_result\<lparr>page_size := 50\<rparr>)),
      [''https://arxiv.org/search/?query=test&searchtype=all&abstracts=show&order=&size=50&start=0''])"
  by code_simp

lemma searchAdvanced_sample:
  "searchAdvanced env1 (Some ''test'') None None None None None None ''relevance'' 1 1000 [] =
     (Inr (Search_reply (sample_result\<lparr>query := ''ti:test'', page_size := 50\<rparr>)),
      [''https://arxiv.org/search/advanced?terms-0-operator=AND&terms-0-term=ti%3Atest&terms-0-field=all&classification-physics_archives=all&classification-include_cross_list=include&abstracts=show&size=50&start=0&order=''])"
  by code_simp

text \<open>
  Claim C6. Whatever page size the caller supplies, the plain and the advanced search
  request \<open>size = min page_size 50\<close> and \<open>start = (page - 1) * min page_size 50\<close>, and
  return that clamped page size; the recent listing requests \<open>show = min count 50\<close>. The
  clamped values are at most 50.
\<close>

theorem page_size_clamped:
  "min ps 50 \<le> (50::int) \<and> min n 50 \<le> (50::int) \<and>
   (\<exists>qs. snd (search e q cat au sb pg ps lg) =
      lg @ [''https://arxiv.org/search/?query='' @ qs @ ''&size='' @ str_int (min ps 50) @
            ''&start='' @ str_int ((pg - 1) * min ps 50)]) \<and>
   (search e q cat au sb pg ps lg = (Inr (Search_reply sr), lga) \<longrightarrow> page_size sr = min ps 50) \<and>
   (truthy ti \<or> truthy ab \<or> truthy au \<or> truthy cat \<or> truthy i \<longrightarrow>
      (\<exists>qs. snd (searchAdvanced e ti ab au cat i df dt sb pg ps lg) =
         lg @ [''https://arxiv.org/search/advanced?'' @ qs @ ''&size='' @ str_int (min ps 50) @
               ''&start='' @ str_int ((pg - 1) * min ps 50) @
               ''&order='' @ dict_get SORT_OPTIONS sb [] @
               (if truthy df then ''&date-from_date='' @ the df else []) @
               (if truthy dt then ''&date-to_date='' @ the dt else [])])) \<and>
   (searchAdvanced e ti ab au cat i df dt sb pg ps lg = (Inr (Search_reply sr'), lgb) \<longrightarrow>
      page_size sr' = min ps 50) \<and>
   snd (getRecent e c n lg) =
     lg @ [''https://arxiv.org/list/'' @ c @ ''/recent?skip=0&show='' @ str_int (min n 50)]"
proof -
  have adv: "\<exists>qs. snd (searchAdvanced e ti ab au cat i df dt sb pg ps lg) =
         lg @ [''https://arxiv.org/search/advanced?'' @ qs @ ''&size='' @ str_int (min ps 50) @
               ''&start='' @ str_int ((pg - 1) * min ps 50) @
               ''&order='' @ dict_get SORT_OPTIONS sb [] @
               (if truthy df then ''&date-from_date='' @ the df else []) @
               (if truthy dt then ''&date-to_date='' @ the dt else [])]"
    if t: "truthy ti \<or> truthy ab \<or> truthy au \<or> truthy cat \<or> truthy i"
    unfolding searchAdvanced_snd[OF t] URL_BASE_def
    by (rule exI[of _ "''terms-0-operator=AND'' @ ''&terms-0-term='' @ _ @
            ''&terms-0-field=all'' @ ''&classification-physics_archives=all'' @
            ''&classification-include_cross_list=include'' @ ''&abstracts=show''"])
       (simp only: append_assoc append.simps)
  have m: "min ps 50 \<le> (50::int)" "min n 50 \<le> (50::int)" by simp_all
  show ?thesis
    using m search_log[of e q cat au sb pg ps lg] search_page_size[of e q cat au sb pg ps lg sr lga]
      adv searchAdvanced_page_size[of e ti ab au cat i df dt sb pg ps lg sr' lgb]
      getRecent_log[of e c n lg]
    by blast
qed

theorem page_size_clamped_witness:
  "search env1 ''test'' None None ''relevance'' 1 1000 [] =
     (Inr (Search_reply (sample_result\<lparr>page_size := 50\<rparr>)),
      [''https://arxiv.org/search/?query=test&searchtype=all&abstracts=show&order=&size=50&start=0'']) \<and>
   page_size (sample_result\<lparr>page_size := 50\<rparr>) = min 1000 50 \<and>
   truthy (Some ''test'') \<and>
   searchAdvanced env1 (Some ''test'') None None None None None None ''relevance'' 1 1000 [] =
     (Inr (Search_reply (sample_result\<lparr>query := ''ti:test'', page_size := 50\<rparr>)),
      [''https://arxiv.org/search/advanced?terms-0-operator=AND&terms-0-term=ti%3Atest&terms-0-field=all&classification-physics_archives=all&classification-include_cross_list=include&abstracts=show&size=50&start=0&order='']) \<and>
   page_size (sample_result\<lparr>query := ''ti:test'', page_size := 50\<rparr>) = min 1000 50 \<and>
   snd (getRecent env1 ''cs.AI'' 1000 []) =
     [''https://arxiv.org/list/cs.AI/recent?skip=0&show='' @ str_int (min 1000 50)] \<and>
   str_int (min 1000 50) = ''50''"
proof -
  note inst = page_size_clamped[where ps = 1000 and n = 1000 and e = env1 and q = "''test''"
      and cat = None and au = None and sb = "''relevance''" and pg = 1 and lg = "[]"
      and sr = "sample_result\<lparr>page_size := 50\<rparr>"
      and lga = "[''https://arxiv.org/search/?query=test&searchtype=all&abstracts=show&order=&size=50&start=0'']"
      and ti = "Some ''test''" and ab = None and i = None and df = None and dt = None
      and sr' = "sample_result\<lparr>query := ''ti:test'', page_size := 50\<rparr>"
      and lgb = "[''https://arxiv.org/search/advanced?terms-0-operator=AND&terms-0-term=ti%3Atest&terms-0-field=all&classification-physics_archives=all&classification-include_cross_list=include&abstracts=show&size=50&start=0&order='']"
      and c = "''cs.AI''"]
  have t: "truthy (Some ''test'')" by (simp add: truthy_def)
  have s: "str_int (min 1000 50) = ''50''" by code_simp
  have 1: "page_size (sample_result\<lparr>page_size := 50\<rparr>) = min 1000 50"
    using inst search_sample by blast
  have 2: "page_size (sample_result\<lparr>query := ''ti:test'', page_size := 50\<rparr>) = min 1000 50"
    using inst searchAdvanced_sample by blast
  have 3: "snd (getRecent env1 ''cs.AI'' 1000 []) =
     [] @ [''https://arxiv.org/list/'' @ ''cs.AI'' @ ''/recent?skip=0&show='' @ str_int (min 1000 50)]"
    using inst by blast
  have g3: "snd (getRecent env1 ''cs.AI'' 1000 []) =
     [''https://arxiv.org/list/cs.AI/recent?skip=0&show='' @ str_int (min 1000 50)]"
    unfolding 3 by (simp only: append_assoc append.simps)
  show ?thesis
    using search_sample searchAdvanced_sample t s 1 2 g3 by blast
qed

text \<open>
  Claim C3 as stated fails: a call that supplies a date filter and nothing else returns the
  error mapping and requests nothing, although a filter field is supplied.
\<close>

theorem searchAdvanced_dates_only_counterexample:
  "truthy (Some ''2024-01-01'') \<and>
   searchAdvanced env1 None None None None None (Some ''2024-01-01'') None ''relevance'' 1 25 []
     = (Inr (Error_reply ''At least one search field is required''), [])"
proof -
  have 1: "truthy (Some ''2024-01-01'')" by (simp add: truthy_def)
  have 2: "searchAdvanced env1 None None None None None (Some ''2024-01-01'') None
             ''relevance'' 1 25 []
     = (Inr (Error_reply ''At least one search field is required''), [])"
    by code_simp
  show ?thesis using 1 2 by (rule conjI)
qed

text \<open>
  Claim C3, as amended. When none of the fields title, abstract, author, category and
  identifier is given (absent or empty), \<open>searchAdvanced\<close> returns the error mapping and
  requests nothing, whatever the date filters are; when one of the five is given, it
  requests the advanced-search page, never returns an error mapping, fails when the request
  fails, and otherwise returns what the extractor of the search-results page makes of the
  body.
\<close>

theorem searchAdvanced_validation:
  "(\<not> truthy ti \<and> \<not> truthy ab \<and> \<not> truthy au \<and> \<not> truthy cat \<and> \<not> truthy i \<longrightarrow>
      searchAdvanced e ti ab au cat i df dt sb pg ps lg =
        (Inr (Error_reply ''At least one search field is required''), lg)) \<and>
   (truthy ti \<or> truthy ab \<or> truthy au \<or> truthy cat \<or> truthy i \<longrightarrow>
      (\<exists>url. snd (searchAdvanced e ti ab au cat i df dt sb pg ps lg) = lg @ [url] \<and>
             prefix ''https://arxiv.org/search/advanced?'' url \<and>
             (\<forall>msg. fst (searchAdvanced e ti ab au cat i df dt sb pg ps lg) \<noteq>
                      Inr (Error_reply msg)) \<and>
             (\<forall>err. http_get e False url = Inl err \<longrightarrow>
                      fst (searchAdvanced e ti ab au cat i df dt sb pg ps lg) = Inl err) \<and>
             (\<forall>body. http_get e False url = Inr body \<longrightarrow>
                      fst (searchAdvanced e ti ab au cat i df dt sb pg ps lg) =
                        (case parseSearchResults (soup_search e) body
                                (str_join '' AND ''
                                   (term_of ''ti:'' ti @ term_of ''abs:'' ab @
                                    term_of ''au:'' au @ term_of ''cat:'' cat @
                                    term_of ''id:'' i))
                                pg (min ps 50) of
                           Inl err \<Rightarrow> Inl err
                         | Inr result \<Rightarrow> Inr (Search_reply result)))))"
proof (intro conjI impI)
  assume "\<not> truthy ti \<and> \<not> truthy ab \<and> \<not> truthy au \<and> \<not> truthy cat \<and> \<not> truthy i"
  then show "searchAdvanced e ti ab au cat i df dt sb pg ps lg =
        (Inr (Error_reply ''At least one search field is required''), lg)"
    by (rule searchAdvanced_empty)
next
  assume t: "truthy ti \<or> truthy ab \<or> truthy au \<or> truthy cat \<or> truthy i"
  from searchAdvanced_fetch[OF t, of e df dt sb pg ps lg] obtain url where
    u: "snd (searchAdvanced e ti ab au cat i df dt sb pg ps lg) = lg @ [url]"
       "prefix ''https://arxiv.org/search/advanced?'' url"
    and f: "fst (searchAdvanced e ti ab au cat i df dt sb pg ps lg) =
             (case http_get e False url of
                Inl err \<Rightarrow> Inl err
              | Inr body \<Rightarrow>
                  (case parseSearchResults (soup_search e) body
                          (str_join '' AND ''
                             (term_of ''ti:'' ti @ term_of ''abs:'' ab @ term_of ''au:'' au @
                              term_of ''cat:'' cat @ term_of ''id:'' i))
                          pg (min ps 50) of
                     Inl err \<Rightarrow> Inl err
                   | Inr result \<Rightarrow> Inr (Search_reply result)))"
    by blast
  have 1: "\<forall>msg. fst (searchAdvanced e ti ab au cat i df dt sb pg ps lg) \<noteq> Inr (Error_reply msg)"
    unfolding f by (auto split: sum.splits)
  have 2: "\<forall>err. http_get e False url = Inl err \<longrightarrow>
             fst (searchAdvanced e ti ab au cat i df dt sb pg ps lg) = Inl err"
    unfolding f by simp
  have 3: "\<forall>body. http_get e False url = Inr body \<longrightarrow>
                      fst (searchAdvanced e ti ab au cat i df dt sb pg ps lg) =
                        (case parseSearchResults (soup_search e) body
                                (str_join '' AND ''
                                   (term_of ''ti:'' ti @ term_of ''abs:'' ab @
                                    term_of ''au:'' au @ term_of ''cat:'' cat @
                                    term_of ''id:'' i))
                                pg (min ps 50) of
                           Inl err \<Rightarrow> Inl err
                         | Inr result \<Rightarrow> Inr (Search_reply result))"
    unfolding f by simp
  show "\<exists>url. snd (searchAdvanced e ti ab au cat i df dt sb pg ps lg) = lg @ [url] \<and>
             prefix ''https://arxiv.org/search/advanced?'' url \<and>
             (\<forall>msg. fst (searchAdvanced e ti ab au cat i df dt sb pg ps lg) \<noteq>
                      Inr (Error_reply msg)) \<and>
             (\<forall>err. http_get e False url = Inl err \<longrightarrow>
                      fst (searchAdvanced e ti ab au cat i df dt sb pg ps lg) = Inl err) \<and>
             (\<forall>body. http_get e False url = Inr body \<longrightarrow>
                      fst (searchAdvanced e ti ab au cat i df dt sb pg ps lg) =
                        (case parseSearchResults (soup_search e) body
                                (str_join '' AND ''
                                   (term_of ''ti:'' ti @ term_of ''abs:'' ab @
                                    term_of ''au:'' au @ term_of ''cat:'' cat @
                                    term_of ''id:'' i))
                                pg (min ps 50) of
                           Inl err \<Rightarrow> Inl err
                         | Inr result \<Rightarrow> Inr (Search_reply result)))"
    using u 1 2 3 by blast
qed

theorem searchAdvanced_validation_witness:
  "\<not> truthy None \<and> \<not> truthy (Some []) \<and>
   searchAdvanced env1 None (Some []) None None None (Some ''2024-01-01'') None ''relevance'' 1 25 []
     = (Inr (Error_reply ''At least one search field is required''), []) \<and>
   truthy (Some ''test'') \<and>
   (\<exists>url. snd (searchAdvanced env1 (Some ''test'') None None None None None None
                 ''relevance'' 1 1000 []) = [url] \<and>
          prefix ''https://arxiv.org/search/advanced?'' url)"
proof -
  have n: "\<not> truthy None" "\<not> truthy (Some [])" and t: "truthy (Some ''test'')"
    by (simp_all add: truthy_def)
  have 1: "searchAdvanced env1 None (Some []) None None None (Some ''2024-01-01'') None
             ''relevance'' 1 25 []
     = (Inr (Error_reply ''At least one search field is required''), [])"
    using searchAdvanced_validation[where ti = None and ab = "Some []" and au = None
        and cat = None and i = None and e = env1 and df = "Some ''2024-01-01''" and dt = None
        and sb = "''relevance''" and pg = 1 and ps = 25 and lg = "[]"] n
    by blast
  have 2: "\<exists>url. snd (searchAdvanced env1 (Some ''test'') None None None None None None
                 ''relevance'' 1 1000 []) = [] @ [url] \<and>
          prefix ''https://arxiv.org/search/advanced?'' url"
    using searchAdvanced_validation[where ti = "Some ''test''" and ab = None and au = None
        and cat = None and i = None and e = env1 and df = None and dt = None
        and sb = "''relevance''" and pg = 1 and ps = 1000 and lg = "[]"] t
    by blast
  show ?thesis using n t 1 2 by simp
qed

section \<open>Malformed result blocks\<close>


lemma parse_block_error: "parse_block b = Inl err \<Longrightarrow> err = TypeError"
  by (auto simp: parse_block_def Let_def split: option.splits)









section \<open>Labels of the abstract\<close>

lemma dropWhile_all: "list_all p w \<Longrightarrow> dropWhile p (w @ r) = dropWhile p r"
  by (simp add: list_all_iff dropWhile_append2)

lemma dropWhile_nil: "list_all p w \<Longrightarrow> dropWhile p w = []"
  by (simp add: list_all_iff)

lemma toggle_no_space: "is_toggle lab \<Longrightarrow> dropWhile is_space (lab @ r) = lab @ r"
  by (auto simp: is_toggle_def is_space_def)

lemma toggle_lit:
  "is_toggle lab \<Longrightarrow>
     (case re_lit ''Less'' (lab @ r) of Some r' \<Rightarrow> Some r' | None \<Rightarrow> re_lit ''More'' (lab @ r))
       = Some r"
  by (auto simp: is_toggle_def re_lit_def)

lemma pattern_toggle_tail: "toggle_tail u \<Longrightarrow> pattern_toggle u = Some []"
proof -
  assume "toggle_tail u"
  then obtain w lab w' where u: "u = w @ lab @ w'" and h: "list_all is_space w" "is_toggle lab"
    "list_all is_space w'"
    by (auto simp: toggle_tail_def)
  have 1: "dropWhile is_space u = lab @ w'"
    unfolding u using h by (simp only: dropWhile_all toggle_no_space)
  show ?thesis
    unfolding pattern_toggle_def 1
    using h by (simp add: toggle_lit list_all_iff)
qed

lemma pattern_toggle_Some:
  assumes "pattern_toggle s = Some r"
  shows "r = [] \<and> toggle_tail s"
proof -
  from assms obtain r2 where
    2: "(case re_lit ''Less'' (dropWhile is_space s) of Some r' \<Rightarrow> Some r'
         | None \<Rightarrow> re_lit ''More'' (dropWhile is_space s)) = Some r2"
    and 3: "dropWhile is_space r2 = []" and r: "r = []"
    by (auto simp: pattern_toggle_def split: Option.bind_splits if_splits)
  from 2 obtain lab where lab: "is_toggle lab" "dropWhile is_space s = lab @ r2"
    by (auto simp: re_lit_def is_toggle_def prefix_def split: option.splits if_splits)
  have "s = takeWhile is_space s @ lab @ r2"
    using takeWhile_dropWhile_id[of is_space s] lab(2) by simp
  moreover have "list_all is_space (takeWhile is_space s)"
    by (auto simp: list_all_iff dest: set_takeWhileD)
  moreover have "list_all is_space r2"
    using 3 by (simp add: list_all_iff dropWhile_eq_Nil_conv)
  ultimately have "toggle_tail s" using lab(1) unfolding toggle_tail_def by blast
  with r show ?thesis by simp
qed

lemma toggle_tail_count:
  assumes "toggle_tail u"
  shows "length (filter (\<lambda>c. \<not> is_space c) u) = 4"
proof -
  from assms obtain w lab w' where u: "u = w @ lab @ w'" and h: "list_all is_space w" "is_toggle lab"
    "list_all is_space w'"
    by (auto simp: toggle_tail_def)
  have "filter (\<lambda>c. \<not> is_space c) w = []" "filter (\<lambda>c. \<not> is_space c) w' = []"
    using h by (simp_all add: list_all_iff filter_empty_conv)
  moreover have "length (filter (\<lambda>c. \<not> is_space c) lab) = 4"
    using h(2) by (auto simp: is_toggle_def is_space_def)
  ultimately show ?thesis by (simp add: u)
qed

lemma toggle_tail_not_empty: "toggle_tail u \<Longrightarrow> u \<noteq> []"
  using toggle_tail_count[of u] by auto

lemma pattern_toggle_empty: "pattern_toggle [] = None"
  by (simp add: pattern_toggle_def re_lit_def)

lemma pattern_toggle_inside:
  assumes "\<not> is_space (last (c # v))" "toggle_tail u"
  shows "pattern_toggle ((c # v) @ u) = None"
proof (rule ccontr)
  assume "pattern_toggle ((c # v) @ u) \<noteq> None"
  then obtain r where "pattern_toggle ((c # v) @ u) = Some r" by auto
  then have "toggle_tail ((c # v) @ u)" using pattern_toggle_Some by blast
  then have "length (filter (\<lambda>c. \<not> is_space c) ((c # v) @ u)) = 4" by (rule toggle_tail_count)
  moreover have "length (filter (\<lambda>c. \<not> is_space c) ((c # v) @ u)) =
      length (filter (\<lambda>c. \<not> is_space c) (c # v)) + length (filter (\<lambda>c. \<not> is_space c) u)"
    by (simp only: filter_append length_append)
  ultimately have "length (filter (\<lambda>c. \<not> is_space c) (c # v)) = 0"
    using toggle_tail_count[OF assms(2)] by linarith
  then have "\<forall>x\<in>set (c # v). is_space x" by (simp only: length_0_conv filter_empty_conv) simp
  moreover have "last (c # v) \<in> set (c # v)" by (rule last_in_set) simp
  ultimately show False using assms(1) by blast
qed

lemma re_sub_toggle_strip:
  assumes "t = [] \<or> \<not> is_space (last t)" "toggle_tail u"
  shows "re_sub pattern_toggle [] (t @ u) = t"
  using assms(1)
proof (induction t)
  case Nil
  have "re_sub pattern_toggle [] u = re_sub pattern_toggle [] []"
    using toggle_tail_not_empty[OF assms(2)]
    by (subst re_sub.simps) (simp add: pattern_toggle_tail[OF assms(2)])
  also have "\<dots> = []"
    by (subst re_sub.simps) (simp add: pattern_toggle_empty)
  finally show ?case by simp
next
  case (Cons c v)
  then have l: "\<not> is_space (last (c # v))" by simp
  then have "v = [] \<or> \<not> is_space (last v)" by (cases v) auto
  with Cons.IH have ih: "re_sub pattern_toggle [] (v @ u) = v" by simp
  have "re_sub pattern_toggle [] ((c # v) @ u) = c # re_sub pattern_toggle [] (v @ u)"
    by (subst re_sub.simps) (simp add: pattern_toggle_inside[OF l assms(2), simplified])
  then show ?case using ih by simp
qed

lemma re_sub_none:
  "(\<forall>n\<le>length s. m (drop n s) = None) \<Longrightarrow> re_sub m repl s = s"
proof (induction s)
  case Nil
  then have "m [] = None" by simp
  then show ?case by (subst re_sub.simps) simp
next
  case (Cons c v)
  from Cons.prems have 0: "m (c # v) = None" by (metis drop0 le0)
  have "\<forall>n\<le>length v. m (drop n v) = None"
  proof (intro allI impI)
    fix n assume "n \<le> length v"
    then have "Suc n \<le> length (c # v)" by simp
    with Cons.prems have "m (drop (Suc n) (c # v)) = None" by blast
    then show "m (drop n v) = None" by simp
  qed
  with Cons.IH have "re_sub m repl v = v" by simp
  then show ?case using 0 by (subst re_sub.simps) simp
qed

lemma re_sub_toggle_id:
  assumes "\<not> ends_with_toggle s"
  shows "re_sub pattern_toggle [] s = s"
proof (rule re_sub_none, intro allI impI)
  fix n assume "n \<le> length s"
  show "pattern_toggle (drop n s) = None"
  proof (rule ccontr)
    assume "pattern_toggle (drop n s) \<noteq> None"
    then obtain r where "pattern_toggle (drop n s) = Some r" by auto
    then have "toggle_tail (drop n s)" using pattern_toggle_Some by blast
    moreover have "s = take n s @ drop n s" by simp
    ultimately have "ends_with_toggle s" unfolding ends_with_toggle_def by blast
    with assms show False by simp
  qed
qed

lemma ends_with_toggle_count:
  assumes "ends_with_toggle s"
  shows "4 \<le> length (filter (\<lambda>c. \<not> is_space c) s)"
proof -
  from assms obtain t u where "s = t @ u" "toggle_tail u" by (auto simp: ends_with_toggle_def)
  then show ?thesis using toggle_tail_count[of u] by simp
qed

lemma label_strip:
  assumes "list_all is_space w" "t = [] \<or> \<not> is_space (hd t)"
  shows "re_sub_start pattern_label [] (''Abstract:'' @ w @ t) = t"
proof -
  have "re_lit ''Abstract:'' (''Abstract:'' @ w @ t) = Some (w @ t)"
    by (simp add: re_lit_def)
  moreover have "dropWhile is_space (w @ t) = t"
    using assms by (cases t) (simp_all add: dropWhile_all dropWhile_nil)
  ultimately show ?thesis by (simp add: re_sub_start_def pattern_label_def)
qed

lemma label_id: "\<not> prefix ''Abstract:'' s \<Longrightarrow> re_sub_start pattern_label [] s = s"
  by (simp add: re_sub_start_def pattern_label_def re_lit_def)

lemma parse_block_abstract:
  assumes "parse_block b = Inr p"
  shows "abstract p = re_sub_start pattern_label []
           (re_sub pattern_toggle []
              (case (case abstract_full_elem b of Some a \<Rightarrow> Some a | None \<Rightarrow> abstract_elem b) of
                 Some a \<Rightarrow> cleanText a | None \<Rightarrow> []))"
  using assms by (auto simp: parse_block_def Let_def split: option.splits)


lemma replace_prefix: "l \<noteq> [] \<Longrightarrow> str_replace l [] (l @ t) = str_replace l [] t"
  by (subst str_replace.simps) simp

lemma replace_step:
  "old \<noteq> [] \<Longrightarrow> \<not> prefix old (c # v) \<Longrightarrow>
     str_replace old new (c # v) = c # str_replace old new v"
  by (subst str_replace.simps) simp

lemma replace_none:
  assumes "CHR '':'' \<notin> set t"
  shows "str_replace ''Abstract:'' [] t = t"
  using assms
proof (induction t)
  case Nil
  show ?case by (subst str_replace.simps) simp
next
  case (Cons c v)
  have "\<not> prefix ''Abstract:'' (c # v)"
  proof
    assume "prefix ''Abstract:'' (c # v)"
    then have "set ''Abstract:'' \<subseteq> set (c # v)" by (rule set_mono_prefix)
    then show False using Cons.prems by auto
  qed
  then have "str_replace ''Abstract:'' [] (c # v) = c # str_replace ''Abstract:'' [] v"
    by (intro replace_step) simp
  moreover have "str_replace ''Abstract:'' [] v = v" using Cons by simp
  ultimately show ?case by (simp only:)
qed

lemma occurs_prefix: "prefix l s \<Longrightarrow> occurs l s"
  unfolding occurs_def prefix_def by (metis append_Nil)

lemma occurs_Cons: "occurs l s \<Longrightarrow> occurs l (c # s)"
  unfolding occurs_def by (metis append_Cons)

lemma occurs_set: "occurs l s \<Longrightarrow> set l \<subseteq> set s"
  by (auto simp: occurs_def)

lemma replace_absent:
  assumes "l \<noteq> []" "\<not> occurs l s"
  shows "str_replace l new s = s"
  using assms(2)
proof (induction s)
  case Nil
  show ?case using assms(1) by (subst str_replace.simps) simp
next
  case (Cons c v)
  have "\<not> prefix l (c # v)" using Cons.prems occurs_prefix by blast
  then have "str_replace l new (c # v) = c # str_replace l new v"
    using assms(1) by (intro replace_step)
  moreover have "\<not> occurs l v" using Cons.prems occurs_Cons by blast
  ultimately show ?case using Cons.IH by simp
qed

lemma replace_here:
  assumes "l \<noteq> []"
  shows "str_replace l new (l @ b) = new @ str_replace l new b"
  using assms by (subst str_replace.simps) simp

lemma prefix_within:
  assumes "l \<noteq> []" "prefix l ((c # a) @ l @ b)"
  shows "prefix l ((c # a) @ butlast l)"
proof -
  have len: "length l \<le> length ((c # a) @ butlast l)" using assms(1) by simp
  have split: "(c # a) @ l @ b = ((c # a) @ butlast l) @ ([last l] @ b)"
    by (metis append_assoc append_butlast_last_id assms(1))
  have whole: "prefix l (((c # a) @ butlast l) @ ([last l] @ b))"
    using assms(2) unfolding split .
  show ?thesis by (rule prefix_length_prefix[OF whole _ len]) simp
qed

lemma replace_first:
  assumes "l \<noteq> []" "\<not> occurs l (a @ butlast l)"
  shows "str_replace l new (a @ l @ b) = a @ new @ str_replace l new b"
  using assms(2)
proof (induction a)
  case Nil
  show ?case using replace_here[OF assms(1)] by simp
next
  case (Cons c a)
  have "\<not> prefix l ((c # a) @ l @ b)"
    using prefix_within[OF assms(1)] occurs_prefix Cons.prems by blast
  then have "str_replace l new ((c # a) @ l @ b) = c # str_replace l new (a @ l @ b)"
    using assms(1) replace_step[of l c "a @ l @ b" new] by simp
  moreover have "\<not> occurs l (a @ butlast l)" using Cons.prems occurs_Cons by fastforce
  ultimately show ?case using Cons.IH by simp
qed

lemma getPaper_abstract:
  assumes "getPaper e x lg = (Inr (Paper_reply q), lgp)"
  shows "\<exists>body. http_get e True (url_abstract q) = Inr body \<and>
           abstract q =
             (case abstract_mathjax (soup_paper e body) of
                Some a \<Rightarrow> cleanText (str_replace ''Abstract:'' [] a)
              | None \<Rightarrow> [])"
  using assms
  by (auto simp: getPaper_def client_get_def Let_def split: option.splits if_splits sum.splits)

text \<open>
  Claim C4 as stated fails for the single-paper extractor: an abstract that ends with
  \<open>More\<close> keeps it.
\<close>

theorem abstract_toggle_counterexample:
  "abstract_mathjax (soup_paper env1 ''https://arxiv.org/abs/2301.00001'') =
     Some ''Abstract: We need More'' \<and>
   getPaper env1 ''2301.00001'' [] =
     (Inr (Paper_reply sample_single), [''https://arxiv.org/abs/2301.00001'']) \<and>
   abstract sample_single = ''We need More''"
proof -
  have 1: "abstract_mathjax (soup_paper env1 ''https://arxiv.org/abs/2301.00001'') =
     Some ''Abstract: We need More''"
    by (simp add: env1_def sample_paper_page_def)
  have 2: "abstract sample_single = ''We need More''" by (simp add: sample_single_def)
  show ?thesis using 1 2 getPaper_sample by blast
qed

text \<open>
  Claim C4, as amended. The search-results extractor normalises the text of the abstract,
  removes one trailing toggle label together with the whitespace around it, and then one
  leading \<open>Abstract:\<close> together with the whitespace after it; a text without such a label
  is left as it is. The single-paper extractor removes every occurrence of \<open>Abstract:\<close>,
  from left to right, and normalises what is left; it removes no toggle label.
\<close>

theorem abstract_labels:
  "(parse_block b = Inr p \<and>
    (abstract_full_elem b = Some raw \<or> abstract_full_elem b = None \<and> abstract_elem b = Some raw)
      \<longrightarrow> abstract p = re_sub_start pattern_label [] (re_sub pattern_toggle [] (cleanText raw))) \<and>
   (toggle_tail u \<and> (t = [] \<or> \<not> is_space (last t)) \<longrightarrow> re_sub pattern_toggle [] (t @ u) = t) \<and>
   (\<not> ends_with_toggle s \<longrightarrow> re_sub pattern_toggle [] s = s) \<and>
   (list_all is_space w \<and> (ta = [] \<or> \<not> is_space (hd ta)) \<longrightarrow>
      re_sub_start pattern_label [] (''Abstract:'' @ w @ ta) = ta) \<and>
   (\<not> prefix ''Abstract:'' sa \<longrightarrow> re_sub_start pattern_label [] sa = sa) \<and>
   (getPaper e x lg = (Inr (Paper_reply q), lgp) \<and>
    http_get e True (url_abstract q) = Inr body \<and>
    abstract_mathjax (soup_paper e body) = Some (''Abstract:'' @ a) \<and> CHR '':'' \<notin> set a
      \<longrightarrow> abstract q = cleanText a) \<and>
   (getPaper e x lg = (Inr (Paper_reply q), lgp) \<and> http_get e True (url_abstract q) = Inr body
      \<longrightarrow> abstract q =
            (case abstract_mathjax (soup_paper e body) of
               Some found \<Rightarrow> cleanText (str_replace ''Abstract:'' [] found)
             | None \<Rightarrow> [])) \<and>
   (\<not> occurs ''Abstract:'' sb \<longrightarrow> str_replace ''Abstract:'' [] sb = sb) \<and>
   (\<not> occurs ''Abstract:'' (pa @ ''Abstract'') \<longrightarrow>
      str_replace ''Abstract:'' [] (pa @ ''Abstract:'' @ sc) =
        pa @ str_replace ''Abstract:'' [] sc)"
proof (intro conjI impI)
  assume "parse_block b = Inr p \<and>
    (abstract_full_elem b = Some raw \<or> abstract_full_elem b = None \<and> abstract_elem b = Some raw)"
  then show "abstract p = re_sub_start pattern_label [] (re_sub pattern_toggle [] (cleanText raw))"
    using parse_block_abstract[of b p] by auto
next
  assume "toggle_tail u \<and> (t = [] \<or> \<not> is_space (last t))"
  then show "re_sub pattern_toggle [] (t @ u) = t" using re_sub_toggle_strip by blast
next
  assume "\<not> ends_with_toggle s"
  then show "re_sub pattern_toggle [] s = s" by (rule re_sub_toggle_id)
next
  assume "list_all is_space w \<and> (ta = [] \<or> \<not> is_space (hd ta))"
  then show "re_sub_start pattern_label [] (''Abstract:'' @ w @ ta) = ta"
    using label_strip by blast
next
  assume "\<not> prefix ''Abstract:'' sa"
  then show "re_sub_start pattern_label [] sa = sa" by (rule label_id)
next
  assume h: "getPaper e x lg = (Inr (Paper_reply q), lgp) \<and>
    http_get e True (url_abstract q) = Inr body \<and>
    abstract_mathjax (soup_paper e body) = Some (''Abstract:'' @ a) \<and> CHR '':'' \<notin> set a"
  from getPaper_abstract[of e x lg q lgp] h obtain body' where
    b: "http_get e True (url_abstract q) = Inr body'" and
    ab: "abstract q =
             (case abstract_mathjax (soup_paper e body') of
                Some a \<Rightarrow> cleanText (str_replace ''Abstract:'' [] a)
              | None \<Rightarrow> [])"
    by blast
  from b h have "body' = body" by simp
  with ab h have "abstract q = cleanText (str_replace ''Abstract:'' [] (''Abstract:'' @ a))"
    by simp
  also have "str_replace ''Abstract:'' [] (''Abstract:'' @ a) = str_replace ''Abstract:'' [] a"
    by (rule replace_prefix) simp
  also have "\<dots> = a" using h by (intro replace_none) simp
  finally show "abstract q = cleanText a" .
next
  assume h: "getPaper e x lg = (Inr (Paper_reply q), lgp) \<and>
    http_get e True (url_abstract q) = Inr body"
  from getPaper_abstract[of e x lg q lgp] h obtain body' where
    b: "http_get e True (url_abstract q) = Inr body'" and
    ab: "abstract q =
             (case abstract_mathjax (soup_paper e body') of
                Some a \<Rightarrow> cleanText (str_replace ''Abstract:'' [] a)
              | None \<Rightarrow> [])"
    by blast
  from b h have "body' = body" by simp
  with ab show "abstract q =
            (case abstract_mathjax (soup_paper e body) of
               Some found \<Rightarrow> cleanText (str_replace ''Abstract:'' [] found)
             | None \<Rightarrow> [])"
    by simp
next
  assume "\<not> occurs ''Abstract:'' sb"
  then show "str_replace ''Abstract:'' [] sb = sb" by (intro replace_absent) simp_all
next
  assume n: "\<not> occurs ''Abstract:'' (pa @ ''Abstract'')"
  have "\<not> occurs ''Abstract:'' (pa @ butlast ''Abstract:'')" using n by simp
  then have "str_replace ''Abstract:'' [] (pa @ ''Abstract:'' @ sc) =
        pa @ [] @ str_replace ''Abstract:'' [] sc"
    by (intro replace_first) simp_all
  then show "str_replace ''Abstract:'' [] (pa @ ''Abstract:'' @ sc) =
        pa @ str_replace ''Abstract:'' [] sc"
    by simp
qed


lemma parse_block_first:
  "parse_block block_first = Inr (hd (papers sample_result))"
  by code_simp

lemma toggle_tail_less: "toggle_tail '' Less''"
  unfolding toggle_tail_def
  by (rule exI[of _ "'' ''"], rule exI[of _ "''Less''"], rule exI[of _ "[]"])
     (simp add: is_toggle_def is_space_def)

lemma no_toggle_yes: "\<not> ends_with_toggle ''Yes''"
  using ends_with_toggle_count[of "''Yes''"] by (auto simp: is_space_def)

theorem abstract_labels_witness:
  "parse_block block_first = Inr (hd (papers sample_result)) \<and>
   abstract_full_elem block_first = Some ''Abstract: We study things. Less'' \<and>
   abstract (hd (papers sample_result)) =
     re_sub_start pattern_label []
       (re_sub pattern_toggle [] (cleanText ''Abstract: We study things. Less'')) \<and>
   abstract (hd (papers sample_result)) = ''We study things.'' \<and>
   toggle_tail '' Less'' \<and> \<not> is_space (last ''Abstract: We study things.'') \<and>
   re_sub pattern_toggle [] (''Abstract: We study things.'' @ '' Less'') =
     ''Abstract: We study things.'' \<and>
   \<not> ends_with_toggle ''Yes'' \<and> re_sub pattern_toggle [] ''Yes'' = ''Yes'' \<and>
   list_all is_space '' '' \<and> \<not> is_space (hd ''We study things.'') \<and>
   re_sub_start pattern_label [] (''Abstract:'' @ '' '' @ ''We study things.'') =
     ''We study things.'' \<and>
   \<not> prefix ''Abstract:'' ''We'' \<and> re_sub_start pattern_label [] ''We'' = ''We'' \<and>
   getPaper env1 ''2301.00001'' [] =
     (Inr (Paper_reply sample_single), [''https://arxiv.org/abs/2301.00001'']) \<and>
   http_get env1 True (url_abstract sample_single) = Inr ''https://arxiv.org/abs/2301.00001'' \<and>
   abstract_mathjax (soup_paper env1 ''https://arxiv.org/abs/2301.00001'') =
     Some (''Abstract:'' @ '' We need More'') \<and>
   CHR '':'' \<notin> set '' We need More'' \<and>
   abstract sample_single = cleanText '' We need More'' \<and>
   abstract sample_single =
     (case abstract_mathjax (soup_paper env1 ''https://arxiv.org/abs/2301.00001'') of
        Some found \<Rightarrow> cleanText (str_replace ''Abstract:'' [] found)
      | None \<Rightarrow> []) \<and>
   \<not> occurs ''Abstract:'' '' We need More'' \<and>
   str_replace ''Abstract:'' [] '' We need More'' = '' We need More'' \<and>
   \<not> occurs ''Abstract:'' (''Our '' @ ''Abstract'') \<and>
   str_replace ''Abstract:'' [] (''Our '' @ ''Abstract:'' @ '' work'') =
     ''Our '' @ str_replace ''Abstract:'' [] '' work''"
proof -
  note inst = abstract_labels[where b = block_first and p = "hd (papers sample_result)"
      and raw = "''Abstract: We study things. Less''" and u = "'' Less''"
      and t = "''Abstract: We study things.''" and s = "''Yes''" and w = "'' ''"
      and ta = "''We study things.''" and sa = "''We''" and e = env1 and x = "''2301.00001''"
      and lg = "[]" and q = sample_single and lgp = "[''https://arxiv.org/abs/2301.00001'']"
      and body = "''https://arxiv.org/abs/2301.00001''" and a = "'' We need More''"
      and sb = "'' We need More''" and pa = "''Our ''" and sc = "'' work''"]
  have h1: "abstract_full_elem block_first = Some ''Abstract: We study things. Less''"
    by (simp add: block_first_def)
  have c1: "abstract (hd (papers sample_result)) =
     re_sub_start pattern_label []
       (re_sub pattern_toggle [] (cleanText ''Abstract: We study things. Less''))"
    using inst parse_block_first h1 by blast
  have v1: "abstract (hd (papers sample_result)) = ''We study things.''"
    by (simp add: sample_result_def)
  have h2: "\<not> is_space (last ''Abstract: We study things.'')" by (simp add: is_space_def)
  have c2: "re_sub pattern_toggle [] (''Abstract: We study things.'' @ '' Less'') =
     ''Abstract: We study things.''"
    using inst toggle_tail_less h2 by blast
  have c3: "re_sub pattern_toggle [] ''Yes'' = ''Yes''"
    using inst no_toggle_yes by blast
  have h4: "list_all is_space '' ''" "\<not> is_space (hd ''We study things.'')"
    by (simp_all add: is_space_def)
  have c4: "re_sub_start pattern_label [] (''Abstract:'' @ '' '' @ ''We study things.'') =
     ''We study things.''"
    using inst h4 by blast
  have h5: "\<not> prefix ''Abstract:'' ''We''" by simp
  have c5: "re_sub_start pattern_label [] ''We'' = ''We''"
    using inst h5 by blast
  have h6: "http_get env1 True (url_abstract sample_single) = Inr ''https://arxiv.org/abs/2301.00001''"
    by (simp add: env1_def sample_single_def)
  have h7: "abstract_mathjax (soup_paper env1 ''https://arxiv.org/abs/2301.00001'') =
     Some (''Abstract:'' @ '' We need More'')"
    by (simp add: env1_def sample_paper_page_def)
  have h8: "CHR '':'' \<notin> set '' We need More''" by simp
  have c6: "abstract sample_single = cleanText '' We need More''"
    using inst getPaper_sample h6 h7 h8 by blast
  have c7: "abstract sample_single =
     (case abstract_mathjax (soup_paper env1 ''https://arxiv.org/abs/2301.00001'') of
        Some found \<Rightarrow> cleanText (str_replace ''Abstract:'' [] found)
      | None \<Rightarrow> [])"
    using inst getPaper_sample h6 by blast
  have h9: "\<not> occurs ''Abstract:'' '' We need More''"
    using occurs_set[of "''Abstract:''" "'' We need More''"] by auto
  have c8: "str_replace ''Abstract:'' [] '' We need More'' = '' We need More''"
    using inst h9 by blast
  have h10: "\<not> occurs ''Abstract:'' (''Our '' @ ''Abstract'')"
    using occurs_set[of "''Abstract:''" "''Our '' @ ''Abstract''"] by auto
  have c9: "str_replace ''Abstract:'' [] (''Our '' @ ''Abstract:'' @ '' work'') =
     ''Our '' @ str_replace ''Abstract:'' [] '' work''"
    using inst h10 by blast
  show ?thesis
    by (intro conjI)
       (rule parse_block_first h1 c1 v1 toggle_tail_less h2 c2 no_toggle_yes c3 h4 c4 h5 c5
          getPaper_sample h6 h7 h8 c6 c7 h9 c8 h10 c9)+
qed

end
